theory Spec2Isabelle
  imports Main "HOL-Library.Word"
begin

section \<open>Cooperative task scheduler: shallow embedding of scheduler.hpp and inner.hpp\<close>

text \<open>
  The embedding follows the C++ classes of namespace \<open>cgx::sch\<close>.

  \<^item> \<open>time_t\<close> is \<open>std::uint64_t\<close> and \<open>duration_t\<close> is \<open>std::int64_t\<close>; both are
    \<open>64 word\<close>, read with \<open>unat\<close> and \<open>sint\<close> respectively. Arithmetic wraps, which
    is what the conversions between the two types do in the source; signed overflow
    (undefined in C++) is modelled as wrap-around as well.
  \<^item> Everything the host supplies is a function on a host state \<open>'w\<close>: the clock
    callback \<open>'w \<Rightarrow> time_t \<times> 'w\<close>, a task callback \<open>'w \<Rightarrow> bool \<times> 'w\<close>, the lock
    and unlock callbacks \<open>'w \<Rightarrow> 'w\<close>. A \<open>std::function\<close> that may be empty is an
    \<open>option\<close>. Host callbacks act on the host state only; they do not reach back into
    the scheduler objects.
  \<^item> The process-wide timer singleton is passed to every operation that reads it.
  \<^item> \<open>std::size_t\<close> indices are \<open>nat\<close>; they stay below the array length, so they
    never wrap.
\<close>

type_synonym time_t = "64 word"
type_synonym duration_t = "64 word"

datatype error = NullDeref | BadFunctionCall | OutOfRange

subsection \<open>inner::timer\_t\<close>

record 'w timer_t =
  m_on_now_cb :: "('w \<Rightarrow> time_t \<times> 'w) option"

definition now :: "'w timer_t \<Rightarrow> 'w \<Rightarrow> time_t \<times> 'w" where
  "now tm w = (case m_on_now_cb tm of None \<Rightarrow> (0, w) | Some cb \<Rightarrow> cb w)"

definition elapsed :: "'w timer_t \<Rightarrow> time_t \<Rightarrow> 'w \<Rightarrow> duration_t \<times> 'w" where
  "elapsed tm start w = (case now tm w of (n, w') \<Rightarrow> (n - start, w'))"

subsection \<open>inner::min\_max\_mean\_t\<close>

text \<open>
  The template is instantiated in the repository with \<open>T = time_t\<close> only (the
  stopwatch's \<open>m_duration\<close>), so samples are \<open>64 word\<close>. The capacity \<open>N\<close> of the
  \<open>std::array\<close> is the length of \<open>m_values\<close>. The ring index is called \<open>m_index\<close> in
  the source; it is \<open>m_ring_index\<close> here because the lane has a field \<open>m_index\<close> too.
\<close>

record min_max_mean_t =
  m_min :: "64 word"
  m_max :: "64 word"
  m_mean :: "64 word"
  m_is_mean_valid :: bool
  m_ring_index :: nat
  m_values :: "64 word list"

definition min_max_mean_init :: "nat \<Rightarrow> min_max_mean_t" where
  "min_max_mean_init N =
     \<lparr>m_min = - 1, m_max = 0, m_mean = 0, m_is_mean_valid = False,
      m_ring_index = 0, m_values = replicate N 0\<rparr>"

definition min_max_mean_add :: "64 word \<Rightarrow> min_max_mean_t \<Rightarrow> min_max_mean_t" where
  "min_max_mean_add v s =
     (let N = length (m_values s);
          s1 = (if \<not> m_is_mean_valid s
                then s\<lparr>m_values := replicate N v, m_is_mean_valid := True\<rparr>
                else s);
          s2 = s1\<lparr>m_min := min (m_min s1) v\<rparr>;
          s3 = s2\<lparr>m_max := max (m_max s2) v\<rparr>;
          s4 = s3\<lparr>m_values := (m_values s3)[m_ring_index s3 := v]\<rparr>;
          s5 = s4\<lparr>m_ring_index := (m_ring_index s4 + 1) mod N\<rparr>;
          s6 = s5\<lparr>m_mean := 0\<rparr>;
          s7 = s6\<lparr>m_mean := foldl (\<lambda>acc x. acc + x) (m_mean s6) (m_values s6)\<rparr>
      in s7\<lparr>m_mean := m_mean s7 div of_nat N\<rparr>)"

definition min_max_mean_reset :: "min_max_mean_t \<Rightarrow> min_max_mean_t" where
  "min_max_mean_reset s =
     s\<lparr>m_min := - 1, m_max := 0, m_mean := 0, m_ring_index := 0,
       m_values := replicate (length (m_values s)) 0, m_is_mean_valid := False\<rparr>"

text \<open>
  What the array type and the modulus guarantee in every state the class can be in: a
  ring of positive capacity that fits \<open>std::size_t\<close>, and an index inside it.
\<close>

definition min_max_mean_wf :: "min_max_mean_t \<Rightarrow> bool" where
  "min_max_mean_wf s \<longleftrightarrow>
     0 < length (m_values s) \<and> length (m_values s) < 2 ^ 64 \<and>
     m_ring_index s < length (m_values s)"

text \<open>Feeding a sequence of samples, oldest first.\<close>

fun min_max_mean_feed :: "64 word list \<Rightarrow> min_max_mean_t \<Rightarrow> min_max_mean_t" where
  "min_max_mean_feed [] s = s"
| "min_max_mean_feed (v # vs) s = min_max_mean_feed vs (min_max_mean_add v s)"

subsection \<open>inner::stop\_watch\_t\<close>

record stop_watch_t =
  m_start :: time_t
  m_duration :: min_max_mean_t

definition stop_watch_init :: stop_watch_t where
  "stop_watch_init = \<lparr>m_start = 0, m_duration = min_max_mean_init 32\<rparr>"

definition stop_watch_start :: "'w timer_t \<Rightarrow> stop_watch_t \<Rightarrow> 'w \<Rightarrow> stop_watch_t \<times> 'w" where
  "stop_watch_start tm sw w = (case now tm w of (n, w') \<Rightarrow> (sw\<lparr>m_start := n\<rparr>, w'))"

definition stop_watch_stop :: "'w timer_t \<Rightarrow> stop_watch_t \<Rightarrow> 'w \<Rightarrow> stop_watch_t \<times> 'w" where
  "stop_watch_stop tm sw w =
     (case elapsed tm (m_start sw) w of
        (e, w') \<Rightarrow> (sw\<lparr>m_duration := min_max_mean_add e (m_duration sw)\<rparr>, w'))"

definition stop_watch_reset :: "stop_watch_t \<Rightarrow> stop_watch_t" where
  "stop_watch_reset sw = sw\<lparr>m_duration := min_max_mean_reset (m_duration sw)\<rparr>"

subsection \<open>C strings\<close>

text \<open>
  A \<open>const char*\<close> argument and a \<open>char\<close> array are lists of bytes. The C string they
  hold ends before the first NUL byte, or at the end of the list (where the
  terminator of the literal or of the array stands).
\<close>

definition c_str :: "string \<Rightarrow> string" where
  "c_str s = takeWhile (\<lambda>c. c \<noteq> CHR 0x00) s"

definition strlen :: "string \<Rightarrow> nat" where
  "strlen s = length (c_str s)"

fun strncmp :: "string \<Rightarrow> string \<Rightarrow> nat \<Rightarrow> int" where
  "strncmp a b 0 = 0"
| "strncmp a b (Suc n) =
     (let x = (case a of [] \<Rightarrow> CHR 0x00 | c # _ \<Rightarrow> c);
          y = (case b of [] \<Rightarrow> CHR 0x00 | c # _ \<Rightarrow> c)
      in if x \<noteq> y then int (of_char x) - int (of_char y)
         else if x = CHR 0x00 then 0
         else strncmp (tl a) (tl b) n)"

subsection \<open>task\_t\<close>

datatype status_t = invalid | running | stopped | paused | delayed

text \<open>
  \<open>m_name\<close> is the \<open>std::array<char, 9>\<close>, all nine bytes. The reference \<open>m_timer\<close>
  to the timer singleton is the parameter \<open>tm\<close> of the operations.
\<close>

record 'w task_t =
  m_name :: string
  m_callback :: "('w \<Rightarrow> bool \<times> 'w) option"
  m_period_tick :: duration_t
  m_actual_period_tick :: duration_t
  m_ticks_left :: duration_t
  m_last_run_tick :: time_t
  m_exec_ticks :: time_t
  m_prev :: time_t
  m_run_time :: stop_watch_t
  m_exec_time :: stop_watch_t
  m_status :: status_t

text \<open>
  \<open>task_t() = default\<close>: every member takes its default member initialiser;
  \<open>m_period_tick\<close> has none, so its value is whatever the storage held, the
  parameter \<open>p\<close>.
\<close>

definition task_t_default :: "duration_t \<Rightarrow> 'w task_t" where
  "task_t_default p =
     \<lparr>m_name = replicate 9 (CHR 0x00), m_callback = None, m_period_tick = p,
      m_actual_period_tick = 0, m_ticks_left = 0, m_last_run_tick = 0, m_exec_ticks = 0,
      m_prev = 0, m_run_time = stop_watch_init, m_exec_time = stop_watch_init,
      m_status = invalid\<rparr>"

text \<open>\<open>task_t(const char* name, const duration_t period, std::function<bool()> callback)\<close>\<close>

definition task_t_ctor ::
  "string \<Rightarrow> duration_t \<Rightarrow> ('w \<Rightarrow> bool \<times> 'w) option \<Rightarrow> 'w task_t" where
  "task_t_ctor name period callback =
     (let len = strlen name;
          k = (if 8 < len then 8 else len)
      in \<lparr>m_name = take k name @ drop k (replicate 9 (CHR 0x00)),
          m_callback = callback, m_period_tick = period,
          m_actual_period_tick = 0, m_ticks_left = 0, m_last_run_tick = 0, m_exec_ticks = 0,
          m_prev = 0, m_run_time = stop_watch_init, m_exec_time = stop_watch_init,
          m_status = running\<rparr>)"

text \<open>\<open>operator=\<close> and the copy constructor copy seven members and leave the others.\<close>

definition task_assign :: "'w task_t \<Rightarrow> 'w task_t \<Rightarrow> 'w task_t" where
  "task_assign this other =
     this\<lparr>m_name := m_name other, m_callback := m_callback other,
          m_period_tick := m_period_tick other, m_last_run_tick := m_last_run_tick other,
          m_status := m_status other, m_run_time := m_run_time other,
          m_exec_time := m_exec_time other\<rparr>"

definition task_copy :: "duration_t \<Rightarrow> 'w task_t \<Rightarrow> 'w task_t" where
  "task_copy p other = task_assign (task_t_default p) other"

definition task_bool :: "'w task_t \<Rightarrow> bool" where
  "task_bool t \<longleftrightarrow> m_status t \<noteq> invalid"

text \<open>The private \<open>_ticks_left()\<close>; it writes the mutable \<open>m_prev\<close>.\<close>

definition task_priv_ticks_left ::
  "'w timer_t \<Rightarrow> 'w task_t \<Rightarrow> 'w \<Rightarrow> duration_t \<times> 'w task_t \<times> 'w" where
  "task_priv_ticks_left tm t w =
     (if sint (m_period_tick t) < 0 then
        (if m_status t = delayed then
           (case elapsed tm (m_last_run_tick t) w of (e, w1) \<Rightarrow> (- e, t, w1))
         else
           (case now tm w of (n, w1) \<Rightarrow>
              (let current = n mod (- m_period_tick t) in
               if current < m_prev t then
                 (case elapsed tm (m_last_run_tick t) w1 of
                    (e, w2) \<Rightarrow> (- e, t\<lparr>m_prev := current\<rparr>, w2))
               else (- m_period_tick t - current, t\<lparr>m_prev := current\<rparr>, w1))))
      else
        (case elapsed tm (m_last_run_tick t) w of (e, w1) \<Rightarrow> (m_period_tick t - e, t, w1)))"

definition task_is_ready :: "'w timer_t \<Rightarrow> 'w task_t \<Rightarrow> 'w \<Rightarrow> bool \<times> 'w task_t \<times> 'w" where
  "task_is_ready tm t w =
     (if m_status t = invalid then (False, t, w)
      else if m_status t = stopped then (False, t, w)
      else (case task_priv_ticks_left tm t w of
              (left, t1, w1) \<Rightarrow>
                (let t2 = t1\<lparr>m_ticks_left := left\<rparr>
                 in if sint (m_ticks_left t2) \<le> 0 then (True, t2, w1) else (False, t2, w1))))"

definition task_ticks_left :: "'w task_t \<Rightarrow> duration_t" where
  "task_ticks_left t =
     (if m_status t \<noteq> paused then 0
      else if m_period_tick t = 0 then 0
      else m_ticks_left t)"

definition task_status :: "'w task_t \<Rightarrow> status_t" where
  "task_status t = (if sint (task_ticks_left t) < 0 then delayed else m_status t)"

text \<open>
  \<open>run()\<close>. The scoped \<open>_watch\<close> starts \<open>m_run_time\<close> before the callback and stops
  it when the function returns. Calling an empty \<open>std::function\<close> throws
  \<open>std::bad_function_call\<close>.
\<close>

definition task_run :: "'w timer_t \<Rightarrow> 'w task_t \<Rightarrow> 'w \<Rightarrow> error + 'w task_t \<times> 'w" where
  "task_run tm t w =
     (if m_status t = invalid then Inr (t, w)
      else if m_status t = stopped then Inr (t, w)
      else
        (case stop_watch_stop tm (m_exec_time t) w of (sw1, w1) \<Rightarrow>
         case stop_watch_start tm sw1 w1 of (sw2, w2) \<Rightarrow>
           (let t1 = t\<lparr>m_exec_time := sw2, m_status := running\<rparr> in
            case now tm w2 of (n, w3) \<Rightarrow>
              (let t2 = (if 0 \<le> sint (m_period_tick t1)
                         then t1\<lparr>m_last_run_tick := n\<rparr>
                         else t1\<lparr>m_last_run_tick := n - task_ticks_left t1\<rparr>) in
               case stop_watch_start tm (m_run_time t2) w3 of (sw3, w4) \<Rightarrow>
                 (let t3 = t2\<lparr>m_run_time := sw3\<rparr> in
                  case m_callback t3 of
                    None \<Rightarrow> Inl BadFunctionCall
                  | Some cb \<Rightarrow>
                      (case cb w4 of (keep, w5) \<Rightarrow>
                         (let t4 = (if keep then t3\<lparr>m_status := paused\<rparr>
                                    else t3\<lparr>m_status := invalid\<rparr>) in
                          case stop_watch_stop tm (m_run_time t4) w5 of
                            (sw4, w6) \<Rightarrow> Inr (t4\<lparr>m_run_time := sw4\<rparr>, w6))))))))"

definition task_invalidate :: "'w task_t \<Rightarrow> 'w task_t" where
  "task_invalidate t = t\<lparr>m_status := invalid\<rparr>"

definition task_stop :: "'w task_t \<Rightarrow> 'w task_t" where
  "task_stop t = t\<lparr>m_status := stopped\<rparr>"

definition task_start :: "'w timer_t \<Rightarrow> 'w task_t \<Rightarrow> 'w \<Rightarrow> 'w task_t \<times> 'w" where
  "task_start tm t w =
     (let t1 = t\<lparr>m_status := paused\<rparr>;
          t2 = t1\<lparr>m_run_time := stop_watch_reset (m_run_time t1)\<rparr>;
          t3 = t2\<lparr>m_exec_time := stop_watch_reset (m_exec_time t2)\<rparr>
      in case stop_watch_start tm (m_exec_time t3) w of
           (sw, w') \<Rightarrow> (t3\<lparr>m_exec_time := sw\<rparr>, w'))"

definition task_reset_run_time :: "'w task_t \<Rightarrow> 'w task_t" where
  "task_reset_run_time t = t\<lparr>m_run_time := stop_watch_reset (m_run_time t)\<rparr>"

subsection \<open>The earlier task\_t of namespace sch (src/unnamed/part\_000)\<close>

text \<open>
  The repository holds an earlier version of the scheduler header as well. Its task has
  fewer members and an eight byte name; only its constructor is embedded. Its fields
  carry the prefix \<open>sch_\<close> to keep them apart from those of \<open>cgx::sch::task_t\<close>.
\<close>

record 'w sch_task_t =
  sch_m_name :: string
  sch_m_callback :: "('w \<Rightarrow> bool \<times> 'w) option"
  sch_m_period_tick :: duration_t
  sch_m_last_run_tick :: time_t
  sch_m_exec_ticks :: time_t
  sch_m_run_time :: stop_watch_t
  sch_m_status :: status_t

definition sch_task_t_ctor ::
  "string \<Rightarrow> duration_t \<Rightarrow> ('w \<Rightarrow> bool \<times> 'w) option \<Rightarrow> 'w sch_task_t" where
  "sch_task_t_ctor name period callback =
     (let len = strlen name;
          k = (if 8 < len then 8 else len)
      in \<lparr>sch_m_name = take k name @ drop k (replicate 8 (CHR 0x00)),
          sch_m_callback = callback, sch_m_period_tick = period,
          sch_m_last_run_tick = 0, sch_m_exec_ticks = 0,
          sch_m_run_time = stop_watch_init, sch_m_status = paused\<rparr>)"

subsection \<open>thread<N>, the execution lane\<close>

text \<open>The capacity \<open>N\<close> is the length of \<open>m_tasks_list\<close>.\<close>

record 'w thread =
  m_tasks_list :: "'w task_t list"
  m_watch :: stop_watch_t
  m_index :: nat
  m_lock_cb :: "('w \<Rightarrow> 'w) option"
  m_unlock_cb :: "('w \<Rightarrow> 'w) option"


definition thread_set_lock_unlock_cb ::
  "('w \<Rightarrow> 'w) option \<Rightarrow> ('w \<Rightarrow> 'w) option \<Rightarrow> 'w thread \<Rightarrow> 'w thread" where
  "thread_set_lock_unlock_cb lock_cb unlock_cb th =
     th\<lparr>m_lock_cb := lock_cb, m_unlock_cb := unlock_cb\<rparr>"

definition thread_lock :: "'w thread \<Rightarrow> 'w \<Rightarrow> 'w" where
  "thread_lock th w = (case m_lock_cb th of None \<Rightarrow> w | Some cb \<Rightarrow> cb w)"

definition thread_unlock :: "'w thread \<Rightarrow> 'w \<Rightarrow> 'w" where
  "thread_unlock th w = (case m_unlock_cb th of None \<Rightarrow> w | Some cb \<Rightarrow> cb w)"

definition thread_size :: "'w thread \<Rightarrow> 'w \<Rightarrow> nat \<times> 'w" where
  "thread_size th w =
     (let w1 = thread_lock th w;
          count = length (filter task_bool (m_tasks_list th))
      in (count, thread_unlock th w1))"

text \<open>
  The loop \<open>while (!m_tasks_list[m_index]) m_index = (m_index + 1) % N\<close>. It does not
  return when no slot is populated, so its result is an \<open>option\<close>.
\<close>

partial_function (option) thread_skip :: "'w task_t list \<Rightarrow> nat \<Rightarrow> nat option" where
  "thread_skip ts i =
     (if task_bool (ts ! i) then Some i else thread_skip ts ((i + 1) mod length ts))"

text \<open>
  \<open>run()\<close>. Beside the new lane and host state, \<open>thread_run_obs\<close> reports what the call
  did: \<open>None\<close> when it returned at the size check, otherwise the slot under the cursor
  after the loop and whether \<open>task.run()\<close> was called on it. The C++ function returns
  nothing; \<open>thread_run\<close> drops the report. A cursor outside the array (which no
  operation produces) is the fault \<open>OutOfRange\<close>. The scoped \<open>_watch\<close> is stopped when
  the function returns, after \<open>unlock()\<close>.
\<close>

definition thread_run_obs ::
  "'w timer_t \<Rightarrow> 'w thread \<Rightarrow> 'w \<Rightarrow> (error + (nat \<times> bool) option \<times> 'w thread \<times> 'w) option" where
  "thread_run_obs tm th w =
     (case thread_size th w of (count, w1) \<Rightarrow>
        if count = 0 then Some (Inr (None, th, w1))
        else
          (let w2 = thread_lock th w1 in
           case stop_watch_start tm (m_watch th) w2 of (sw, w3) \<Rightarrow>
             (let th1 = th\<lparr>m_watch := sw\<rparr> in
              if length (m_tasks_list th1) \<le> m_index th1 then Some (Inl OutOfRange)
              else
                (case thread_skip (m_tasks_list th1) (m_index th1) of
                   None \<Rightarrow> None
                 | Some i \<Rightarrow>
                     (let th2 = th1\<lparr>m_index := i\<rparr> in
                      case task_is_ready tm (m_tasks_list th2 ! m_index th2) w3 of
                        (ready, task1, w4) \<Rightarrow>
                          (case (if ready then task_run tm task1 w4 else Inr (task1, w4)) of
                             Inl e \<Rightarrow> Some (Inl e)
                           | Inr (task2, w5) \<Rightarrow>
                               (let th3 = th2\<lparr>m_tasks_list :=
                                                 (m_tasks_list th2)[m_index th2 := task2]\<rparr>;
                                    th4 = th3\<lparr>m_index :=
                                                 (m_index th3 + 1) mod length (m_tasks_list th3)\<rparr>;
                                    w6 = thread_unlock th4 w5
                                in case stop_watch_stop tm (m_watch th4) w6 of
                                     (sw', w7) \<Rightarrow>
                                       Some (Inr (Some (i, ready),
                                                  th4\<lparr>m_watch := sw'\<rparr>, w7)))))))))"

definition thread_run ::
  "'w timer_t \<Rightarrow> 'w thread \<Rightarrow> 'w \<Rightarrow> (error + 'w thread \<times> 'w) option" where
  "thread_run tm th w = map_option (map_sum id snd) (thread_run_obs tm th w)"



text \<open>\<open>add(task)\<close>: the range-for with its early return, then the lane operation.\<close>

fun thread_add_loop :: "'w task_t list \<Rightarrow> 'w task_t \<Rightarrow> bool \<times> 'w task_t list" where
  "thread_add_loop [] task = (False, [])"
| "thread_add_loop (t # ts) task =
     (if \<not> task_bool t then (True, task_assign t task # ts)
      else (case thread_add_loop ts task of (b, ts') \<Rightarrow> (b, t # ts')))"

definition thread_add :: "'w thread \<Rightarrow> 'w task_t \<Rightarrow> 'w \<Rightarrow> bool \<times> 'w thread \<times> 'w" where
  "thread_add th task w =
     (let w1 = thread_lock th w in
      case thread_add_loop (m_tasks_list th) task of
        (b, ts) \<Rightarrow> (b, th\<lparr>m_tasks_list := ts\<rparr>, thread_unlock th w1))"

text \<open>
  \<open>pkill\<close>, \<open>start\<close> and \<open>stop\<close> are the same loop around three task operations:
  \<open>if (task && std::strncmp(task.name().data(), name, 8) == 0) { task.op(); return true; }\<close>.
  \<open>thread_name_loop\<close> is that loop, with the task operation as its first argument.
\<close>

fun thread_name_loop ::
  "('w task_t \<Rightarrow> 'w \<Rightarrow> 'w task_t \<times> 'w) \<Rightarrow> 'w task_t list \<Rightarrow> string \<Rightarrow> 'w
     \<Rightarrow> bool \<times> 'w task_t list \<times> 'w" where
  "thread_name_loop f [] name w = (False, [], w)"
| "thread_name_loop f (t # ts) name w =
     (if task_bool t \<and> strncmp (m_name t) name 8 = 0
      then (case f t w of (t', w') \<Rightarrow> (True, t' # ts, w'))
      else (case thread_name_loop f ts name w of (b, ts', w') \<Rightarrow> (b, t # ts', w')))"

definition thread_name_op ::
  "('w task_t \<Rightarrow> 'w \<Rightarrow> 'w task_t \<times> 'w) \<Rightarrow> 'w thread \<Rightarrow> string \<Rightarrow> 'w
     \<Rightarrow> bool \<times> 'w thread \<times> 'w" where
  "thread_name_op f th name w =
     (let w1 = thread_lock th w in
      case thread_name_loop f (m_tasks_list th) name w1 of
        (b, ts, w2) \<Rightarrow> (b, th\<lparr>m_tasks_list := ts\<rparr>, thread_unlock th w2))"

definition thread_pkill :: "'w thread \<Rightarrow> string \<Rightarrow> 'w \<Rightarrow> bool \<times> 'w thread \<times> 'w" where
  "thread_pkill th name w = thread_name_op (\<lambda>t w'. (task_invalidate t, w')) th name w"

definition thread_start ::
  "'w timer_t \<Rightarrow> 'w thread \<Rightarrow> string \<Rightarrow> 'w \<Rightarrow> bool \<times> 'w thread \<times> 'w" where
  "thread_start tm th name w = thread_name_op (task_start tm) th name w"

definition thread_stop :: "'w thread \<Rightarrow> string \<Rightarrow> 'w \<Rightarrow> bool \<times> 'w thread \<times> 'w" where
  "thread_stop th name w = thread_name_op (\<lambda>t w'. (task_stop t, w')) th name w"

definition thread_reset_stats :: "'w thread \<Rightarrow> 'w \<Rightarrow> 'w thread \<times> 'w" where
  "thread_reset_stats th w =
     (let w1 = thread_lock th w;
          th1 = th\<lparr>m_tasks_list := map task_reset_run_time (m_tasks_list th)\<rparr>;
          th2 = th1\<lparr>m_watch := stop_watch_reset (m_watch th1)\<rparr>
      in (th2, thread_unlock th2 w1))"

subsection \<open>scheduler\_t\<close>

text \<open>
  The registry \<open>m_threads\<close> holds eight \<open>observer_ptr<thread_t>\<close>: \<open>None\<close> is
  \<open>nullptr\<close>, \<open>Some a\<close> points at the lane that the host keeps at address \<open>a\<close>. The
  lanes themselves live in host storage, the store \<open>lanes\<close>. Calling a member through
  a null pointer is the fault \<open>NullDeref\<close>. The lane index is a \<open>uint8_t\<close>.
\<close>

record scheduler_t =
  m_threads :: "nat option list"

definition scheduler_t_ctor ::
  "('w \<Rightarrow> time_t \<times> 'w) option \<Rightarrow> scheduler_t \<times> 'w timer_t" where
  "scheduler_t_ctor on_now_cb =
     (\<lparr>m_threads = replicate 8 None\<rparr>, \<lparr>m_on_now_cb = on_now_cb\<rparr>)"

definition scheduler_run ::
  "'w timer_t \<Rightarrow> scheduler_t \<Rightarrow> (nat \<Rightarrow> 'w thread) \<Rightarrow> 8 word \<Rightarrow> 'w
     \<Rightarrow> (error + (nat \<Rightarrow> 'w thread) \<times> 'w) option" where
  "scheduler_run tm sch lanes thread w =
     (if length (m_threads sch) \<le> unat thread then Some (Inr (lanes, w))
      else
        (case m_threads sch ! unat thread of
           None \<Rightarrow> Some (Inl NullDeref)
         | Some a \<Rightarrow>
             (case thread_run tm (lanes a) w of
                None \<Rightarrow> None
              | Some (Inl e) \<Rightarrow> Some (Inl e)
              | Some (Inr (th, w')) \<Rightarrow> Some (Inr (lanes(a := th), w')))))"

fun scheduler_add_loop :: "nat option list \<Rightarrow> nat option \<Rightarrow> bool \<times> nat option list" where
  "scheduler_add_loop [] thread = (False, [])"
| "scheduler_add_loop (t # ts) thread =
     (if t = None then (True, thread # ts)
      else (case scheduler_add_loop ts thread of (b, ts') \<Rightarrow> (b, t # ts')))"

definition scheduler_add_thread :: "scheduler_t \<Rightarrow> nat option \<Rightarrow> bool \<times> scheduler_t" where
  "scheduler_add_thread sch thread =
     (case scheduler_add_loop (m_threads sch) thread of
        (b, ts) \<Rightarrow> (b, sch\<lparr>m_threads := ts\<rparr>))"

definition scheduler_add_task ::
  "scheduler_t \<Rightarrow> (nat \<Rightarrow> 'w thread) \<Rightarrow> 'w task_t \<Rightarrow> 8 word \<Rightarrow> 'w
     \<Rightarrow> error + bool \<times> (nat \<Rightarrow> 'w thread) \<times> 'w" where
  "scheduler_add_task sch lanes task thread w =
     (if length (m_threads sch) \<le> unat thread then Inr (False, lanes, w)
      else
        (case m_threads sch ! unat thread of
           None \<Rightarrow> Inl NullDeref
         | Some a \<Rightarrow>
             (case thread_add (lanes a) task w of
                (b, th, w') \<Rightarrow> Inr (b, lanes(a := th), w'))))"

text \<open>
  \<open>pkill\<close>, \<open>start\<close> and \<open>stop\<close> of the scheduler are one loop around three lane
  operations: \<open>if (t && t->op(name)) return true;\<close>.
\<close>

fun scheduler_name_loop ::
  "('w thread \<Rightarrow> string \<Rightarrow> 'w \<Rightarrow> bool \<times> 'w thread \<times> 'w) \<Rightarrow> nat option list \<Rightarrow> string
     \<Rightarrow> (nat \<Rightarrow> 'w thread) \<Rightarrow> 'w \<Rightarrow> bool \<times> (nat \<Rightarrow> 'w thread) \<times> 'w" where
  "scheduler_name_loop f [] name lanes w = (False, lanes, w)"
| "scheduler_name_loop f (t # ts) name lanes w =
     (case t of
        None \<Rightarrow> scheduler_name_loop f ts name lanes w
      | Some a \<Rightarrow>
          (case f (lanes a) name w of
             (b, th, w') \<Rightarrow>
               if b then (True, lanes(a := th), w')
               else scheduler_name_loop f ts name (lanes(a := th)) w'))"

definition scheduler_pkill ::
  "scheduler_t \<Rightarrow> (nat \<Rightarrow> 'w thread) \<Rightarrow> string \<Rightarrow> 'w \<Rightarrow> bool \<times> (nat \<Rightarrow> 'w thread) \<times> 'w" where
  "scheduler_pkill sch lanes name w =
     scheduler_name_loop thread_pkill (m_threads sch) name lanes w"

definition scheduler_start ::
  "'w timer_t \<Rightarrow> scheduler_t \<Rightarrow> (nat \<Rightarrow> 'w thread) \<Rightarrow> string \<Rightarrow> 'w
     \<Rightarrow> bool \<times> (nat \<Rightarrow> 'w thread) \<times> 'w" where
  "scheduler_start tm sch lanes name w =
     scheduler_name_loop (thread_start tm) (m_threads sch) name lanes w"

definition scheduler_stop ::
  "scheduler_t \<Rightarrow> (nat \<Rightarrow> 'w thread) \<Rightarrow> string \<Rightarrow> 'w \<Rightarrow> bool \<times> (nat \<Rightarrow> 'w thread) \<times> 'w" where
  "scheduler_stop sch lanes name w =
     scheduler_name_loop thread_stop (m_threads sch) name lanes w"

fun scheduler_reset_loop ::
  "nat option list \<Rightarrow> (nat \<Rightarrow> 'w thread) \<Rightarrow> 'w \<Rightarrow> (nat \<Rightarrow> 'w thread) \<times> 'w" where
  "scheduler_reset_loop [] lanes w = (lanes, w)"
| "scheduler_reset_loop (t # ts) lanes w =
     (case t of
        None \<Rightarrow> scheduler_reset_loop ts lanes w
      | Some a \<Rightarrow>
          (case thread_reset_stats (lanes a) w of
             (th, w') \<Rightarrow> scheduler_reset_loop ts (lanes(a := th)) w'))"

definition scheduler_reset_stats ::
  "scheduler_t \<Rightarrow> (nat \<Rightarrow> 'w thread) \<Rightarrow> 'w \<Rightarrow> (nat \<Rightarrow> 'w thread) \<times> 'w" where
  "scheduler_reset_stats sch lanes w = scheduler_reset_loop (m_threads sch) lanes w"

subsection \<open>Task states that the public operations can produce\<close>

text \<open>
  A task object starts from one of the two constructors and is changed only by its
  public members: the assignment from another task, \<open>is_ready\<close>, \<open>run\<close>, \<open>start\<close>,
  \<open>stop\<close>, \<open>invalidate\<close> and \<open>reset_run_time\<close>.
\<close>

inductive task_reachable :: "'w timer_t \<Rightarrow> 'w task_t \<Rightarrow> bool" for tm :: "'w timer_t" where
  reach_default: "task_reachable tm (task_t_default p)"
| reach_ctor: "task_reachable tm (task_t_ctor name period callback)"
| reach_assign:
    "task_reachable tm t \<Longrightarrow> task_reachable tm u \<Longrightarrow> task_reachable tm (task_assign t u)"
| reach_is_ready:
    "task_reachable tm t \<Longrightarrow> task_is_ready tm t w = (b, t', w') \<Longrightarrow> task_reachable tm t'"
| reach_run:
    "task_reachable tm t \<Longrightarrow> task_run tm t w = Inr (t', w') \<Longrightarrow> task_reachable tm t'"
| reach_start:
    "task_reachable tm t \<Longrightarrow> task_start tm t w = (t', w') \<Longrightarrow> task_reachable tm t'"
| reach_stop: "task_reachable tm t \<Longrightarrow> task_reachable tm (task_stop t)"
| reach_invalidate: "task_reachable tm t \<Longrightarrow> task_reachable tm (task_invalidate t)"
| reach_reset_run_time: "task_reachable tm t \<Longrightarrow> task_reachable tm (task_reset_run_time t)"

subsection \<open>Host objects used in the examples\<close>

text \<open>
  A host whose state is the current tick: reading the clock returns it and leaves it in
  place. A callback that keeps its task and one that drops it.
\<close>

definition steady_clock :: "(64 word) timer_t" where
  "steady_clock = \<lparr>m_on_now_cb = Some (\<lambda>w. (w, w))\<rparr>"

definition keep_cb :: "('w \<Rightarrow> bool \<times> 'w) option" where
  "keep_cb = Some (\<lambda>w. (True, w))"

definition drop_cb :: "('w \<Rightarrow> bool \<times> 'w) option" where
  "drop_cb = Some (\<lambda>w. (False, w))"

text \<open>
  Three lanes without lock callbacks: one whose two tasks have names that agree on the
  first eight characters; a full one of three tasks of period 0 with the cursor at
  slot 1; and one whose only task sits in slot 0, two slots after the cursor.
\<close>

definition aliased_lane :: "(64 word) thread" where
  "aliased_lane =
     \<lparr>m_tasks_list = [task_t_ctor ''abcdefghX'' 10 keep_cb, task_t_ctor ''abcdefghY'' 10 keep_cb],
      m_watch = stop_watch_init, m_index = 0, m_lock_cb = None, m_unlock_cb = None\<rparr>"



section \<open>The rolling statistic\<close>

lemma foldl_plus_word: "foldl (\<lambda>acc x. acc + x) (a::64 word) xs = a + sum_list xs"
  by (induction xs arbitrary: a) (simp_all add: add.assoc)

lemma unat_sum_list_no_overflow:
  "sum_list (map unat xs) < 2 ^ 64 \<Longrightarrow> unat (sum_list xs :: 64 word) = sum_list (map unat xs)"
proof (induction xs)
  case Nil
  then show ?case by simp
next
  case (Cons x xs)
  then have "sum_list (map unat xs) < 2 ^ 64" by simp
  with Cons.IH have ih: "unat (sum_list xs) = sum_list (map unat xs)" by simp
  have "unat (x + sum_list xs) = (unat x + unat (sum_list xs)) mod 2 ^ 64"
    by (simp add: unat_word_ariths)
  with ih Cons.prems show ?case by simp
qed

lemma min_max_mean_add_values:
  "m_values (min_max_mean_add v s) =
     (if m_is_mean_valid s then m_values s else replicate (length (m_values s)) v)[m_ring_index s := v]"
  by (simp add: min_max_mean_add_def Let_def)

lemma min_max_mean_add_mean:
  "m_mean (min_max_mean_add v s) =
     sum_list (m_values (min_max_mean_add v s)) div of_nat (length (m_values s))"
  by (simp add: min_max_mean_add_def Let_def foldl_plus_word)

lemma min_max_mean_add_length:
  "length (m_values (min_max_mean_add v s)) = length (m_values s)"
  by (simp add: min_max_mean_add_values)

lemma min_max_mean_add_wf: "min_max_mean_wf s \<Longrightarrow> min_max_mean_wf (min_max_mean_add v s)"
  by (simp add: min_max_mean_wf_def min_max_mean_add_length)
     (simp add: min_max_mean_add_def Let_def)

lemma min_max_mean_mean_unat:
  assumes wf: "min_max_mean_wf s"
    and no: "sum_list (map unat (m_values (min_max_mean_add v s))) < 2 ^ 64"
  shows "unat (m_mean (min_max_mean_add v s)) =
     sum_list (map unat (m_values (min_max_mean_add v s))) div length (m_values (min_max_mean_add v s))"
proof -
  let ?N = "length (m_values s)"
  have N: "?N < 2 ^ 64" using wf by (simp add: min_max_mean_wf_def)
  have "unat (of_nat ?N :: 64 word) = ?N"
    using N by (simp add: unat_of_nat)
  then show ?thesis
    using no by (simp add: min_max_mean_add_mean unat_div unat_sum_list_no_overflow min_max_mean_add_length)
qed

lemma first_add_mean:
  assumes N: "0 < N" "N * unat v < 2 ^ 64"
  shows "(sum_list (replicate N v) :: 64 word) div of_nat N = v"
proof (cases "v = 0")
  case True
  then show ?thesis by (simp add: sum_list_replicate)
next
  case False
  then have "0 < unat v" by (simp add: unat_gt_0)
  then have "N \<le> N * unat v" by simp
  with N(2) have N64: "N < 2 ^ 64" by linarith
  have s: "sum_list (map unat (replicate N v)) = N * unat v"
    by (simp add: sum_list_replicate)
  have u: "unat (sum_list (replicate N v)) = N * unat v"
    using unat_sum_list_no_overflow[of "replicate N v"] N s by simp
  have n: "unat (of_nat N :: 64 word) = N"
    using N64 by (simp add: unat_of_nat)
  have "unat ((sum_list (replicate N v) :: 64 word) div of_nat N) = unat v"
    using N by (simp add: unat_div u n)
  then show ?thesis by (simp add: word_unat_eq_iff)
qed

lemma replicate_update_same: "(replicate n v)[i := v] = replicate n v"
  by (cases "i < n") (simp_all add: list_eq_iff_nth_eq nth_list_update)

lemma first_add_fill:
  "m_values (min_max_mean_add v (min_max_mean_reset s)) = replicate (length (m_values s)) v"
  "m_min (min_max_mean_add v (min_max_mean_reset s)) = v"
  "m_max (min_max_mean_add v (min_max_mean_reset s)) = v"
proof -
  show "m_values (min_max_mean_add v (min_max_mean_reset s)) = replicate (length (m_values s)) v"
    by (simp add: min_max_mean_add_values min_max_mean_reset_def replicate_update_same)
  show "m_min (min_max_mean_add v (min_max_mean_reset s)) = v"
    by (simp add: min_max_mean_add_def min_max_mean_reset_def Let_def)
  show "m_max (min_max_mean_add v (min_max_mean_reset s)) = v"
    by (simp add: min_max_mean_add_def min_max_mean_reset_def Let_def)
qed

lemma first_add:
  assumes "0 < length (m_values s)" "length (m_values s) * unat v < 2 ^ 64"
  shows "m_mean (min_max_mean_add v (min_max_mean_reset s)) = v"
  using assms
  by (simp add: min_max_mean_add_mean first_add_fill(1) first_add_mean)
     (simp add: min_max_mean_reset_def first_add_mean)

lemma min_max_mean_add_min_max:
  "m_min (min_max_mean_add v s) = min (m_min s) v"
  "m_max (min_max_mean_add v s) = max (m_max s) v"
  by (simp_all add: min_max_mean_add_def Let_def)

lemma feed_sorted_min_max:
  "sorted (b # vs) \<Longrightarrow> m_min s \<le> b \<Longrightarrow> m_max s = b \<Longrightarrow>
   m_min (min_max_mean_feed vs s) = m_min s \<and> m_max (min_max_mean_feed vs s) = last (b # vs)"
proof (induction vs arbitrary: s b)
  case Nil
  then show ?case by simp
next
  case (Cons x xs)
  let ?s = "min_max_mean_add x s"
  from Cons.prems have bx: "b \<le> x" and sx: "sorted (x # xs)" by simp_all
  have "m_min s \<le> x" using Cons.prems(2) bx by (rule order_trans)
  then have mn: "m_min ?s = m_min s"
    by (simp add: min_max_mean_add_min_max min_def)
  have mx: "m_max ?s = x"
    using Cons.prems(3) bx by (simp add: min_max_mean_add_min_max max_def)
  have "m_min ?s \<le> x" using mn Cons.prems(2) bx by simp
  from Cons.IH[OF sx this mx] mn show ?case by simp
qed


text \<open>
  Claim C10, as amended. The accumulator of the mean is a 64-bit unsigned integer, so
  the sum over the ring wraps and the quotient is truncated. For a ring of capacity
  \<open>N\<close> in a well-formed state:
  \<^item> after \<open>reset()\<close>, the first \<open>add(v)\<close> fills the whole ring with \<open>v\<close> and gives
    \<open>min = max = v\<close>; it gives \<open>mean = v\<close> when \<open>N * v\<close> is below \<open>2^64\<close>;
  \<^item> after every \<open>add\<close>, \<open>mean\<close> is the wrapped sum of the ring contents divided by
    \<open>N\<close>, which is the truncated arithmetic mean of the ring contents when their sum
    is below \<open>2^64\<close>;
  \<^item> feeding a non-decreasing sequence after \<open>reset()\<close> keeps \<open>min\<close> at the first value
    and \<open>max\<close> at the latest.
\<close>

theorem min_max_mean_statistics:
  assumes wf: "min_max_mean_wf s"
  shows "m_values (min_max_mean_add v (min_max_mean_reset s)) = replicate (length (m_values s)) v \<and>
         m_min (min_max_mean_add v (min_max_mean_reset s)) = v \<and>
         m_max (min_max_mean_add v (min_max_mean_reset s)) = v \<and>
         (length (m_values s) * unat v < 2 ^ 64 \<longrightarrow>
            m_mean (min_max_mean_add v (min_max_mean_reset s)) = v) \<and>
         m_mean (min_max_mean_add v s) =
            sum_list (m_values (min_max_mean_add v s)) div of_nat (length (m_values (min_max_mean_add v s))) \<and>
         (sum_list (map unat (m_values (min_max_mean_add v s))) < 2 ^ 64 \<longrightarrow>
            unat (m_mean (min_max_mean_add v s)) =
              sum_list (map unat (m_values (min_max_mean_add v s))) div length (m_values (min_max_mean_add v s))) \<and>
         (sorted (v # vs) \<longrightarrow>
            m_min (min_max_mean_feed (v # vs) (min_max_mean_reset s)) = v \<and>
            m_max (min_max_mean_feed (v # vs) (min_max_mean_reset s)) = last (v # vs))"
proof (intro conjI impI)
  show "m_values (min_max_mean_add v (min_max_mean_reset s)) = replicate (length (m_values s)) v"
    by (rule first_add_fill(1))
  show "m_min (min_max_mean_add v (min_max_mean_reset s)) = v"
    by (rule first_add_fill(2))
  show "m_max (min_max_mean_add v (min_max_mean_reset s)) = v"
    by (rule first_add_fill(3))
next
  assume no: "length (m_values s) * unat v < 2 ^ 64"
  have pos: "0 < length (m_values s)" using wf by (simp add: min_max_mean_wf_def)
  show "m_mean (min_max_mean_add v (min_max_mean_reset s)) = v"
    by (rule first_add[OF pos no])
next
  show "m_mean (min_max_mean_add v s) =
      sum_list (m_values (min_max_mean_add v s)) div of_nat (length (m_values (min_max_mean_add v s)))"
    by (simp add: min_max_mean_add_mean min_max_mean_add_length)
next
  assume "sum_list (map unat (m_values (min_max_mean_add v s))) < 2 ^ 64"
  with wf show "unat (m_mean (min_max_mean_add v s)) =
      sum_list (map unat (m_values (min_max_mean_add v s))) div length (m_values (min_max_mean_add v s))"
    by (rule min_max_mean_mean_unat)
next
  assume srt: "sorted (v # vs)"
  let ?s1 = "min_max_mean_add v (min_max_mean_reset s)"
  have mn: "m_min ?s1 = v" and mx: "m_max ?s1 = v"
    by (simp_all add: min_max_mean_add_min_max min_max_mean_reset_def)
  have le: "m_min ?s1 \<le> v" using mn by simp
  from feed_sorted_min_max[OF srt le mx] mn
  have r: "m_min (min_max_mean_feed vs ?s1) = v \<and> m_max (min_max_mean_feed vs ?s1) = last (v # vs)"
    by simp
  from r show "m_min (min_max_mean_feed (v # vs) (min_max_mean_reset s)) = v" by simp
  from r show "m_max (min_max_mean_feed (v # vs) (min_max_mean_reset s)) = last (v # vs)" by simp
qed

theorem min_max_mean_statistics_witness:
  "min_max_mean_wf (min_max_mean_init 32) \<and>
   length (m_values (min_max_mean_init 32)) * unat (5 :: 64 word) < 2 ^ 64 \<and>
   m_values (min_max_mean_add 5 (min_max_mean_reset (min_max_mean_init 32))) =
     replicate (length (m_values (min_max_mean_init 32))) 5 \<and>
   m_min (min_max_mean_add 5 (min_max_mean_reset (min_max_mean_init 32))) = 5 \<and>
   m_max (min_max_mean_add 5 (min_max_mean_reset (min_max_mean_init 32))) = 5 \<and>
   m_mean (min_max_mean_add 5 (min_max_mean_reset (min_max_mean_init 32))) = 5 \<and>
   sum_list (map unat (m_values (min_max_mean_add 5 (min_max_mean_init 32)))) < 2 ^ 64 \<and>
   unat (m_mean (min_max_mean_add 5 (min_max_mean_init 32))) =
     sum_list (map unat (m_values (min_max_mean_add 5 (min_max_mean_init 32)))) div
     length (m_values (min_max_mean_add 5 (min_max_mean_init 32))) \<and>
   sorted [5, 7, 9 :: 64 word] \<and>
   m_min (min_max_mean_feed [5, 7, 9] (min_max_mean_reset (min_max_mean_init 32))) = 5 \<and>
   m_max (min_max_mean_feed [5, 7, 9] (min_max_mean_reset (min_max_mean_init 32))) =
     last [5, 7, 9]"
proof -
  have wf: "min_max_mean_wf (min_max_mean_init 32)"
    by (simp add: min_max_mean_wf_def min_max_mean_init_def)
  have no: "length (m_values (min_max_mean_init 32)) * unat (5 :: 64 word) < 2 ^ 64"
    by (simp add: min_max_mean_init_def)
  have vals: "m_values (min_max_mean_add 5 (min_max_mean_init 32)) = replicate 32 5"
    by (simp add: min_max_mean_add_values min_max_mean_init_def replicate_update_same)
  have sm: "sum_list (map unat (m_values (min_max_mean_add 5 (min_max_mean_init 32)))) < 2 ^ 64"
    by (simp add: vals sum_list_replicate)
  have srt: "sorted [5, 7, 9 :: 64 word]" by simp
  show ?thesis
    using min_max_mean_statistics[OF wf, of 5 "[7, 9]"] wf no sm srt by blast
qed

text \<open>
  Claim C10 as stated fails for the first sample \<open>2^59\<close> on the 32-slot ring of a
  stopwatch: the sum \<open>32 * 2^59\<close> wraps to 0, so the mean is 0, not the sample.
\<close>

theorem min_max_mean_first_add_counterexample:
  "m_mean (min_max_mean_add (2 ^ 59) (min_max_mean_reset (min_max_mean_init 32))) \<noteq> 2 ^ 59"
  by code_simp

section \<open>The task: readiness, re-arming and status\<close>

lemma min_max_mean_reset_init:
  "min_max_mean_reset d = min_max_mean_init (length (m_values d))"
  by (simp add: min_max_mean_reset_def min_max_mean_init_def)

lemma task_is_ready_not_ready:
  "m_status t = invalid \<or> m_status t = stopped \<Longrightarrow> task_is_ready tm t w = (False, t, w)"
  by (auto simp: task_is_ready_def)

lemma task_is_ready_eq:
  "m_status t \<noteq> invalid \<Longrightarrow> m_status t \<noteq> stopped \<Longrightarrow>
   task_is_ready tm t w =
     (case task_priv_ticks_left tm t w of
        (left, t1, w1) \<Rightarrow> (sint left \<le> 0, t1\<lparr>m_ticks_left := left\<rparr>, w1))"
  by (simp add: task_is_ready_def Let_def split: prod.splits)

lemma task_is_ready_fst:
  "m_status t \<noteq> invalid \<Longrightarrow> m_status t \<noteq> stopped \<Longrightarrow>
   fst (task_is_ready tm t w) = (sint (fst (task_priv_ticks_left tm t w)) \<le> 0)"
  by (simp add: task_is_ready_eq split: prod.splits)

lemma task_priv_ticks_left_status:
  "task_priv_ticks_left tm t w = (left, t', w') \<Longrightarrow> m_status t' = m_status t"
  by (auto simp: task_priv_ticks_left_def Let_def split: if_splits prod.splits)

lemma task_is_ready_status:
  "task_is_ready tm t w = (b, t', w') \<Longrightarrow> m_status t' = m_status t"
  by (auto simp: task_is_ready_def Let_def split: if_splits prod.splits
           dest: task_priv_ticks_left_status)

lemma task_run_status:
  "task_run tm t w = Inr (t', w') \<Longrightarrow>
     m_status t' = m_status t \<and> (m_status t = invalid \<or> m_status t = stopped) \<or>
     m_status t' = paused \<or> m_status t' = invalid"
  by (auto simp: task_run_def Let_def split: if_splits prod.splits option.splits)

lemma task_start_status: "task_start tm t w = (t', w') \<Longrightarrow> m_status t' = paused"
  by (auto simp: task_start_def Let_def split: prod.splits)

lemma task_reachable_not_delayed: "task_reachable tm t \<Longrightarrow> m_status t \<noteq> delayed"
proof (induction rule: task_reachable.induct)
  case (reach_default p)
  show ?case by (simp add: task_t_default_def)
next
  case (reach_ctor name period callback)
  show ?case by (simp add: task_t_ctor_def Let_def)
next
  case (reach_assign t u)
  then show ?case by (simp add: task_assign_def)
next
  case (reach_is_ready t w b t' w')
  then show ?case by (simp add: task_is_ready_status)
next
  case (reach_run t w t' w')
  from task_run_status[OF reach_run.hyps(2)] reach_run.IH show ?case by auto
next
  case (reach_start t w t' w')
  then show ?case by (simp add: task_start_status)
next
  case (reach_stop t)
  show ?case by (simp add: task_stop_def)
next
  case (reach_invalidate t)
  show ?case by (simp add: task_invalidate_def)
next
  case (reach_reset_run_time t)
  then show ?case by (simp add: task_reset_run_time_def)
qed

lemma task_priv_ticks_left_not_delayed:
  "m_status t \<noteq> delayed \<Longrightarrow>
   task_priv_ticks_left tm t w =
     (if sint (m_period_tick t) < 0 then
        (case now tm w of (n, w1) \<Rightarrow>
           (let phase = n mod (- m_period_tick t) in
            if phase < m_prev t then
              (case elapsed tm (m_last_run_tick t) w1 of
                 (e, w2) \<Rightarrow> (- e, t\<lparr>m_prev := phase\<rparr>, w2))
            else (- m_period_tick t - phase, t\<lparr>m_prev := phase\<rparr>, w1)))
      else
        (case elapsed tm (m_last_run_tick t) w of (e, w1) \<Rightarrow> (m_period_tick t - e, t, w1)))"
  by (simp add: task_priv_ticks_left_def)


lemma now_steady [simp]: "now steady_clock w = (w, w)"
  by (simp add: now_def steady_clock_def)

lemma elapsed_steady [simp]: "elapsed steady_clock s w = (w - s, w)"
  by (simp add: elapsed_def)

lemma task_run_last_run_tick:
  assumes "m_status t \<noteq> invalid" "m_status t \<noteq> stopped"
    and "task_run tm t w = Inr (t', w')"
  shows "m_last_run_tick t' =
           fst (now tm (snd (stop_watch_start tm (fst (stop_watch_stop tm (m_exec_time t) w))
                               (snd (stop_watch_stop tm (m_exec_time t) w)))))"
  using assms
  by (auto simp: task_run_def Let_def task_ticks_left_def split: prod.splits option.splits if_splits)


text \<open>
  Claim C1. The callback of a task with period \<open>-10\<close> keeps the task. Polled at tick 7
  the task is not ready (phase 7, time-left 3); polled at tick 13 the phase has wrapped
  to 3, time-left is \<open>-13\<close> and the task is ready. \<open>run()\<close> at tick 13 then stores
  \<open>last_run = 13\<close>, the value of \<open>now()\<close>: \<open>ticks_left()\<close> is read after the status
  has been set to \<open>running\<close> and returns 0, so nothing is subtracted. The time-left at
  the run, \<open>-13\<close>, does not enter, and \<open>last_run\<close> is not the period boundary 10.
\<close>

theorem task_run_negative_period_rearm:
  "task_is_ready steady_clock (task_t_ctor ''tick'' (- 10) keep_cb) 7 =
     (False, (task_t_ctor ''tick'' (- 10) keep_cb)\<lparr>m_prev := 7, m_ticks_left := 3\<rparr>, 7) \<and>
   task_is_ready steady_clock
       ((task_t_ctor ''tick'' (- 10) keep_cb)\<lparr>m_prev := 7, m_ticks_left := 3\<rparr>) 13 =
     (True, (task_t_ctor ''tick'' (- 10) keep_cb)\<lparr>m_prev := 3, m_ticks_left := - 13\<rparr>, 13) \<and>
   \<not> isl (task_run steady_clock
       ((task_t_ctor ''tick'' (- 10) keep_cb)\<lparr>m_prev := 3, m_ticks_left := - 13\<rparr>) 13) \<and>
   m_last_run_tick (fst (projr (task_run steady_clock
       ((task_t_ctor ''tick'' (- 10) keep_cb)\<lparr>m_prev := 3, m_ticks_left := - 13\<rparr>) 13))) = 13 \<and>
   m_status (fst (projr (task_run steady_clock
       ((task_t_ctor ''tick'' (- 10) keep_cb)\<lparr>m_prev := 3, m_ticks_left := - 13\<rparr>) 13))) = paused \<and>
   (13 :: 64 word) - (- 13) \<noteq> 13"
proof (intro conjI)
  show "task_is_ready steady_clock (task_t_ctor ''tick'' (- 10) keep_cb) 7 =
     (False, (task_t_ctor ''tick'' (- 10) keep_cb)\<lparr>m_prev := 7, m_ticks_left := 3\<rparr>, 7)"
    by (simp add: task_is_ready_def task_priv_ticks_left_def task_t_ctor_def Let_def)
  show "task_is_ready steady_clock
       ((task_t_ctor ''tick'' (- 10) keep_cb)\<lparr>m_prev := 7, m_ticks_left := 3\<rparr>) 13 =
     (True, (task_t_ctor ''tick'' (- 10) keep_cb)\<lparr>m_prev := 3, m_ticks_left := - 13\<rparr>, 13)"
    by (simp add: task_is_ready_def task_priv_ticks_left_def task_t_ctor_def Let_def)
  show "\<not> isl (task_run steady_clock
       ((task_t_ctor ''tick'' (- 10) keep_cb)\<lparr>m_prev := 3, m_ticks_left := - 13\<rparr>) 13)"
    by (simp add: task_run_def task_t_ctor_def Let_def keep_cb_def stop_watch_stop_def
          stop_watch_start_def task_ticks_left_def)
  show "m_last_run_tick (fst (projr (task_run steady_clock
       ((task_t_ctor ''tick'' (- 10) keep_cb)\<lparr>m_prev := 3, m_ticks_left := - 13\<rparr>) 13))) = 13"
    by (simp add: task_run_def task_t_ctor_def Let_def keep_cb_def stop_watch_stop_def
          stop_watch_start_def task_ticks_left_def)
  show "m_status (fst (projr (task_run steady_clock
       ((task_t_ctor ''tick'' (- 10) keep_cb)\<lparr>m_prev := 3, m_ticks_left := - 13\<rparr>) 13))) = paused"
    by (simp add: task_run_def task_t_ctor_def Let_def keep_cb_def stop_watch_stop_def
          stop_watch_start_def task_ticks_left_def)
  show "(13 :: 64 word) - (- 13) \<noteq> 13" by simp
qed

text \<open>
  Claim C2. For a task with a negative period, of magnitude \<open>P = - m_period_tick\<close>, in
  a state that the public operations can produce, \<open>_ticks_left()\<close> samples
  \<open>phase = now() mod P\<close>; when the phase is below the stored sample \<open>m_prev\<close> the
  time-left is \<open>- elapsed(last_run)\<close>, otherwise it is \<open>P - phase\<close>; in both cases the
  stored sample becomes the new phase. A readiness check of a task that is neither
  invalid nor stopped stores this time-left and answers whether it is at most 0.
\<close>

theorem task_negative_period_phase:
  assumes "task_reachable tm t" and "sint (m_period_tick t) < 0"
  shows "task_priv_ticks_left tm t w =
           (case now tm w of (n, w1) \<Rightarrow>
              (let phase = n mod (- m_period_tick t) in
               if phase < m_prev t then
                 (case elapsed tm (m_last_run_tick t) w1 of
                    (e, w2) \<Rightarrow> (- e, t\<lparr>m_prev := phase\<rparr>, w2))
               else (- m_period_tick t - phase, t\<lparr>m_prev := phase\<rparr>, w1))) \<and>
         m_prev (fst (snd (task_priv_ticks_left tm t w))) =
           fst (now tm w) mod (- m_period_tick t) \<and>
         (m_status t \<noteq> invalid \<and> m_status t \<noteq> stopped \<longrightarrow>
            task_is_ready tm t w =
              (case task_priv_ticks_left tm t w of
                 (left, t1, w1) \<Rightarrow> (sint left \<le> 0, t1\<lparr>m_ticks_left := left\<rparr>, w1)))"
proof -
  have nd: "m_status t \<noteq> delayed" using assms(1) by (rule task_reachable_not_delayed)
  have eq: "task_priv_ticks_left tm t w =
           (case now tm w of (n, w1) \<Rightarrow>
              (let phase = n mod (- m_period_tick t) in
               if phase < m_prev t then
                 (case elapsed tm (m_last_run_tick t) w1 of
                    (e, w2) \<Rightarrow> (- e, t\<lparr>m_prev := phase\<rparr>, w2))
               else (- m_period_tick t - phase, t\<lparr>m_prev := phase\<rparr>, w1)))"
    using assms(2) by (simp add: task_priv_ticks_left_not_delayed[OF nd])
  have pv: "m_prev (fst (snd (task_priv_ticks_left tm t w))) =
           fst (now tm w) mod (- m_period_tick t)"
    by (simp add: eq Let_def split: prod.splits)
  show ?thesis using eq pv by (simp add: task_is_ready_eq)
qed

theorem task_negative_period_phase_witness:
  "task_reachable steady_clock
     ((task_t_ctor ''tick'' (- 10) keep_cb)\<lparr>m_prev := 7, m_ticks_left := 3\<rparr>) \<and>
   sint (m_period_tick ((task_t_ctor ''tick'' (- 10) keep_cb)\<lparr>m_prev := 7, m_ticks_left := 3\<rparr>)) < 0 \<and>
   task_priv_ticks_left steady_clock
       ((task_t_ctor ''tick'' (- 10) keep_cb)\<lparr>m_prev := 7, m_ticks_left := 3\<rparr>) 13 =
     (- 13, (task_t_ctor ''tick'' (- 10) keep_cb)\<lparr>m_prev := 3, m_ticks_left := 3\<rparr>, 13) \<and>
   task_priv_ticks_left steady_clock
       ((task_t_ctor ''tick'' (- 10) keep_cb)\<lparr>m_prev := 7, m_ticks_left := 3\<rparr>) 18 =
     (2, (task_t_ctor ''tick'' (- 10) keep_cb)\<lparr>m_prev := 8, m_ticks_left := 3\<rparr>, 18)"
proof -
  let ?t = "(task_t_ctor ''tick'' (- 10) keep_cb :: (64 word) task_t)\<lparr>m_prev := 7, m_ticks_left := 3\<rparr>"
  have r0: "task_is_ready steady_clock (task_t_ctor ''tick'' (- 10) keep_cb) 7 = (False, ?t, 7)"
    by (simp add: task_is_ready_def task_priv_ticks_left_def task_t_ctor_def Let_def)
  have reach: "task_reachable steady_clock ?t"
    by (rule reach_is_ready[OF reach_ctor r0])
  have neg: "sint (m_period_tick ?t) < 0" by (simp add: task_t_ctor_def Let_def)
  show ?thesis
    using task_negative_period_phase[OF reach neg, of 13]
      task_negative_period_phase[OF reach neg, of 18] reach neg
    by (simp add: task_t_ctor_def Let_def)
qed

text \<open>
  Claim C3, as amended. The constructor \<open>task_t(name, period, callback)\<close> of
  scheduler.hpp stores the status \<open>running\<close>, and \<open>status()\<close> reports \<open>running\<close>.
  The slot counts as populated, and since \<open>running\<close> is neither \<open>invalid\<close> nor
  \<open>stopped\<close>, \<open>is_ready()\<close> evaluates the period rule: the task runs on its first
  matching deadline. The earlier constructor in part\_000 stores \<open>paused\<close>.
\<close>

theorem task_t_ctor_status:
  "m_status (task_t_ctor name period callback) = running \<and>
   task_status (task_t_ctor name period callback) = running \<and>
   task_bool (task_t_ctor name period callback) \<and>
   fst (task_is_ready tm (task_t_ctor name period callback) w) =
     (sint (fst (task_priv_ticks_left tm (task_t_ctor name period callback) w)) \<le> 0) \<and>
   sch_m_status (sch_task_t_ctor name period callback) = paused"
proof -
  have st: "m_status (task_t_ctor name period callback) = running"
    by (simp add: task_t_ctor_def Let_def)
  have rd: "fst (task_is_ready tm (task_t_ctor name period callback) w) =
     (sint (fst (task_priv_ticks_left tm (task_t_ctor name period callback) w)) \<le> 0)"
    by (rule task_is_ready_fst) (simp_all add: st)
  show ?thesis
    using rd by (simp add: st task_status_def task_ticks_left_def task_bool_def sch_task_t_ctor_def Let_def)
qed

text \<open>
  Claim C3 as stated fails on scheduler.hpp: the status stored by the constructor is
  not \<open>paused\<close>.
\<close>

theorem task_t_ctor_status_counterexample:
  "m_status (task_t_ctor ''t1'' 10 (keep_cb :: (64 word \<Rightarrow> bool \<times> 64 word) option)) \<noteq> paused"
  by (simp add: task_t_ctor_def Let_def)


lemma task_start_fields:
  "task_start tm t w = (t', w') \<Longrightarrow>
     m_status t' = paused \<and>
     m_duration (m_run_time t') = min_max_mean_reset (m_duration (m_run_time t)) \<and>
     m_duration (m_exec_time t') = min_max_mean_reset (m_duration (m_exec_time t)) \<and>
     m_start (m_exec_time t') = fst (now tm w) \<and> w' = snd (now tm w) \<and>
     m_period_tick t' = m_period_tick t \<and> m_last_run_tick t' = m_last_run_tick t \<and>
     m_prev t' = m_prev t \<and> m_name t' = m_name t \<and> m_callback t' = m_callback t"
  by (auto simp: task_start_def Let_def stop_watch_start_def stop_watch_reset_def
           split: prod.splits)

text \<open>
  Claim C4. A task that is neither invalid nor stopped is ready exactly when the
  time-left that \<open>_ticks_left()\<close> computes is at most 0, whatever the sign of its
  period; an invalid or stopped task is never ready, and the check leaves it and the
  host state untouched. \<open>start()\<close> sets the status to \<open>paused\<close> and resets both
  statistics to their initial, unseeded state; the period, the last-run tick and the
  phase sample stay, so the started task is ready again by the same rule.
\<close>

theorem task_ready_rule:
  "(m_status t \<noteq> invalid \<and> m_status t \<noteq> stopped \<longrightarrow>
      fst (task_is_ready tm t w) = (sint (fst (task_priv_ticks_left tm t w)) \<le> 0)) \<and>
   (m_status t = invalid \<or> m_status t = stopped \<longrightarrow> task_is_ready tm t w = (False, t, w)) \<and>
   m_status (fst (task_start tm t w)) = paused \<and>
   m_duration (m_run_time (fst (task_start tm t w))) =
     min_max_mean_init (length (m_values (m_duration (m_run_time t)))) \<and>
   m_duration (m_exec_time (fst (task_start tm t w))) =
     min_max_mean_init (length (m_values (m_duration (m_exec_time t)))) \<and>
   m_period_tick (fst (task_start tm t w)) = m_period_tick t \<and>
   m_last_run_tick (fst (task_start tm t w)) = m_last_run_tick t \<and>
   m_prev (fst (task_start tm t w)) = m_prev t \<and>
   fst (task_is_ready tm (fst (task_start tm t w)) w') =
     (sint (fst (task_priv_ticks_left tm (fst (task_start tm t w)) w')) \<le> 0)"
proof -
  obtain t' w1 where st: "task_start tm t w = (t', w1)" by (cases "task_start tm t w")
  note f = task_start_fields[OF st]
  have p: "m_status t' \<noteq> invalid" "m_status t' \<noteq> stopped" using f by simp_all
  have rd: "fst (task_is_ready tm t' w') = (sint (fst (task_priv_ticks_left tm t' w')) \<le> 0)"
    by (rule task_is_ready_fst[OF p])
  show ?thesis
    using f rd
    by (simp add: st task_is_ready_fst task_is_ready_not_ready min_max_mean_reset_init)
qed

theorem task_ready_rule_witness:
  "m_status (task_stop (task_t_ctor ''t1'' 10 keep_cb) :: (64 word) task_t) = stopped \<and>
   task_is_ready steady_clock (task_stop (task_t_ctor ''t1'' 10 keep_cb)) 25 =
     (False, task_stop (task_t_ctor ''t1'' 10 keep_cb), 25) \<and>
   m_status (fst (task_start steady_clock (task_stop (task_t_ctor ''t1'' 10 keep_cb)) 25)) = paused \<and>
   fst (task_is_ready steady_clock
          (fst (task_start steady_clock (task_stop (task_t_ctor ''t1'' 10 keep_cb)) 25)) 25) \<and>
   \<not> fst (task_is_ready steady_clock
          (fst (task_start steady_clock (task_stop (task_t_ctor ''t1'' 10 keep_cb)) 25)) 5)"
proof -
  let ?t = "task_stop (task_t_ctor ''t1'' 10 keep_cb) :: (64 word) task_t"
  have s: "m_status ?t = stopped" by (simp add: task_stop_def)
  have a: "fst (task_priv_ticks_left steady_clock (fst (task_start steady_clock ?t 25)) 25) = - 15"
    by (simp add: task_start_def task_stop_def task_t_ctor_def Let_def stop_watch_start_def
          task_priv_ticks_left_def)
  have b: "fst (task_priv_ticks_left steady_clock (fst (task_start steady_clock ?t 25)) 5) = 5"
    by (simp add: task_start_def task_stop_def task_t_ctor_def Let_def stop_watch_start_def
          task_priv_ticks_left_def)
  show ?thesis
    using task_ready_rule[of ?t steady_clock 25 25] task_ready_rule[of ?t steady_clock 25 5] s
    by (simp add: a b)
qed

text \<open>
  Claim C8. In every state of a task that the constructors and the public operations
  produce, the stored status is not \<open>delayed\<close>; \<open>status()\<close> reports \<open>delayed\<close>
  exactly when \<open>ticks_left()\<close> is negative; and \<open>_ticks_left()\<close> never takes its
  branch guarded by \<open>m_status == status_t::delayed\<close>: its result is that of the
  function without the branch.
\<close>

theorem task_status_never_delayed:
  assumes "task_reachable tm t"
  shows "m_status t \<noteq> delayed \<and>
         (task_status t = delayed \<longleftrightarrow> sint (task_ticks_left t) < 0) \<and>
         task_priv_ticks_left tm t w =
           (if sint (m_period_tick t) < 0 then
              (case now tm w of (n, w1) \<Rightarrow>
                 (let current = n mod (- m_period_tick t) in
                  if current < m_prev t then
                    (case elapsed tm (m_last_run_tick t) w1 of
                       (e, w2) \<Rightarrow> (- e, t\<lparr>m_prev := current\<rparr>, w2))
                  else (- m_period_tick t - current, t\<lparr>m_prev := current\<rparr>, w1)))
            else
              (case elapsed tm (m_last_run_tick t) w of
                 (e, w1) \<Rightarrow> (m_period_tick t - e, t, w1)))"
proof -
  have nd: "m_status t \<noteq> delayed" using assms by (rule task_reachable_not_delayed)
  have "task_status t = delayed \<longleftrightarrow> sint (task_ticks_left t) < 0"
    using nd by (simp add: task_status_def)
  with nd task_priv_ticks_left_not_delayed[OF nd, of tm w] show ?thesis by simp
qed

theorem task_status_never_delayed_witness:
  "task_reachable steady_clock
     ((task_t_ctor ''tick'' (- 10) keep_cb)\<lparr>m_prev := 7, m_ticks_left := 3\<rparr>) \<and>
   m_status ((task_t_ctor ''tick'' (- 10) keep_cb :: (64 word) task_t)\<lparr>m_prev := 7, m_ticks_left := 3\<rparr>)
     \<noteq> delayed \<and>
   task_priv_ticks_left steady_clock
       ((task_t_ctor ''tick'' (- 10) keep_cb)\<lparr>m_prev := 7, m_ticks_left := 3\<rparr>) 13 =
     (- 13, (task_t_ctor ''tick'' (- 10) keep_cb)\<lparr>m_prev := 3, m_ticks_left := 3\<rparr>, 13)"
proof -
  let ?t = "(task_t_ctor ''tick'' (- 10) keep_cb :: (64 word) task_t)\<lparr>m_prev := 7, m_ticks_left := 3\<rparr>"
  have r0: "task_is_ready steady_clock (task_t_ctor ''tick'' (- 10) keep_cb) 7 = (False, ?t, 7)"
    by (simp add: task_is_ready_def task_priv_ticks_left_def task_t_ctor_def Let_def)
  have reach: "task_reachable steady_clock ?t"
    by (rule reach_is_ready[OF reach_ctor r0])
  show ?thesis
    using task_status_never_delayed[OF reach, of 13] reach
    by (simp add: task_t_ctor_def Let_def)
qed

section \<open>The lane: name-addressed control\<close>

lemma of_char_nat_pos: "c \<noteq> CHR 0x00 \<Longrightarrow> 0 < (of_char c :: nat)"
proof -
  assume c: "c \<noteq> CHR 0x00"
  have "(of_char c :: nat) \<noteq> of_char (CHR 0x00)" using c by (simp only: of_char_eq_iff) simp
  then show ?thesis by simp
qed

lemma strncmp_zero_iff: "strncmp a b n = 0 \<longleftrightarrow> take n (c_str a) = take n (c_str b)"
proof (induction n arbitrary: a b)
  case 0
  show ?case by simp
next
  case (Suc n)
  show ?case
  proof (cases a)
    case Nil
    then show ?thesis by (cases b) (auto simp: c_str_def Let_def dest: of_char_nat_pos)
  next
    case (Cons x xs)
    note a = Cons
    show ?thesis
    proof (cases b)
      case Nil
      then show ?thesis using a by (auto simp: c_str_def Let_def dest: of_char_nat_pos)
    next
      case (Cons y ys)
      then show ?thesis using a Suc.IH[of xs ys] by (auto simp: c_str_def Let_def)
    qed
  qed
qed

lemma take_takeWhile_prefix:
  assumes "k \<le> length (takeWhile P xs)"
  shows "take k xs = take k (takeWhile P xs)"
proof -
  have "take k (takeWhile P xs @ dropWhile P xs) = take k (takeWhile P xs)"
    using assms by (simp del: takeWhile_dropWhile_id)
  then show ?thesis by simp
qed

lemma takeWhile_replicate_nul: "takeWhile (\<lambda>c. c \<noteq> CHR 0x00) (replicate n (CHR 0x00)) = []"
  by (cases n) simp_all

lemma c_str_name_array:
  assumes "k \<le> strlen name"
  shows "c_str (take k name @ drop k (replicate 9 (CHR 0x00))) = take k (c_str name)"
proof -
  let ?P = "\<lambda>c. c \<noteq> CHR 0x00"
  have k: "k \<le> length (takeWhile ?P name)" using assms by (simp add: strlen_def c_str_def)
  have tk: "take k name = take k (takeWhile ?P name)"
    by (rule take_takeWhile_prefix[OF k])
  have all: "\<forall>x\<in>set (take k (takeWhile ?P name)). ?P x"
    by (auto dest!: in_set_takeD dest: set_takeWhileD)
  have "takeWhile ?P (take k (takeWhile ?P name) @ replicate (9 - k) (CHR 0x00)) =
          take k (takeWhile ?P name) @ takeWhile ?P (replicate (9 - k) (CHR 0x00))"
    by (rule takeWhile_append2) (use all in blast)
  then show ?thesis
    by (simp only: c_str_def tk drop_replicate takeWhile_replicate_nul append_Nil2)
qed

lemma c_str_task_t_ctor: "c_str (m_name (task_t_ctor name period callback)) = take 8 (c_str name)"
proof (cases "8 < strlen name")
  case True
  then have "c_str (m_name (task_t_ctor name period callback)) = take 8 (c_str name)"
    using c_str_name_array[of 8 name] by (simp add: task_t_ctor_def Let_def)
  then show ?thesis .
next
  case False
  then have "c_str (m_name (task_t_ctor name period callback)) = take (strlen name) (c_str name)"
    using c_str_name_array[of "strlen name" name] by (simp add: task_t_ctor_def Let_def)
  with False show ?thesis by (simp add: strlen_def)
qed


lemma thread_name_loop_hit:
  assumes "i < length ts"
    and "task_bool (ts ! i) \<and> take 8 (c_str (m_name (ts ! i))) = take 8 (c_str name)"
    and "\<forall>j<i. \<not> (task_bool (ts ! j) \<and> take 8 (c_str (m_name (ts ! j))) = take 8 (c_str name))"
  shows "thread_name_loop f ts name w = (True, ts[i := fst (f (ts ! i) w)], snd (f (ts ! i) w))"
  using assms
proof (induction ts arbitrary: i)
  case Nil
  then show ?case by simp
next
  case (Cons t ts)
  show ?case
  proof (cases i)
    case 0
    with Cons.prems(2) show ?thesis
      by (simp add: strncmp_zero_iff split: prod.splits)
  next
    case (Suc k)
    from Cons.prems(3) Suc
    have t: "\<not> (task_bool t \<and> take 8 (c_str (m_name t)) = take 8 (c_str name))"
      by auto
    from Cons.prems(3) Suc
    have rest: "\<forall>j<k. \<not> (task_bool (ts ! j) \<and> take 8 (c_str (m_name (ts ! j))) = take 8 (c_str name))"
      by auto
    from Cons.prems(1,2) Suc
    have k: "k < length ts"
      and hit: "task_bool (ts ! k) \<and> take 8 (c_str (m_name (ts ! k))) = take 8 (c_str name)"
      by simp_all
    from Cons.IH[OF k hit rest] t Suc show ?thesis
      by (auto simp: strncmp_zero_iff)
  qed
qed

lemma thread_name_loop_miss:
  "\<forall>t\<in>set ts. \<not> (task_bool t \<and> take 8 (c_str (m_name t)) = take 8 (c_str name)) \<Longrightarrow>
   thread_name_loop f ts name w = (False, ts, w)"
  by (induction ts) (auto simp: strncmp_zero_iff)

lemma thread_name_loop_prefix:
  "take 8 (c_str name) = take 8 (c_str name') \<Longrightarrow>
   thread_name_loop f ts name w = thread_name_loop f ts name' w"
  by (induction ts) (simp_all add: strncmp_zero_iff)

lemma thread_name_op_hit:
  assumes "i < length (m_tasks_list th)"
    and "task_bool (m_tasks_list th ! i) \<and>
         take 8 (c_str (m_name (m_tasks_list th ! i))) = take 8 (c_str name)"
    and "\<forall>j<i. \<not> (task_bool (m_tasks_list th ! j) \<and>
                 take 8 (c_str (m_name (m_tasks_list th ! j))) = take 8 (c_str name))"
  shows "thread_name_op f th name w =
           (True,
            th\<lparr>m_tasks_list :=
                 (m_tasks_list th)[i := fst (f (m_tasks_list th ! i) (thread_lock th w))]\<rparr>,
            thread_unlock th (snd (f (m_tasks_list th ! i) (thread_lock th w))))"
  by (simp add: thread_name_op_def Let_def thread_name_loop_hit[OF assms])

lemma thread_name_op_miss:
  "\<forall>t\<in>set (m_tasks_list th).
      \<not> (task_bool t \<and> take 8 (c_str (m_name t)) = take 8 (c_str name)) \<Longrightarrow>
   thread_name_op f th name w = (False, th, thread_unlock th (thread_lock th w))"
  by (simp add: thread_name_op_def Let_def thread_name_loop_miss)

lemma thread_name_op_prefix:
  "take 8 (c_str name) = take 8 (c_str name') \<Longrightarrow>
   thread_name_op f th name w = thread_name_op f th name' w"
  by (simp add: thread_name_op_def Let_def thread_name_loop_prefix[of name name'])

text \<open>
  Claim C7. \<open>strncmp(a, b, 8)\<close> is 0 exactly when the C strings \<open>a\<close> and \<open>b\<close> agree on
  their first 8 characters, and a constructed task stores the first 8 characters of
  its name. Let slot \<open>i\<close> be the first populated slot of a lane whose name agrees with
  \<open>name\<close> on 8 characters. Then \<open>pkill(name)\<close>, \<open>start(name)\<close> and \<open>stop(name)\<close>
  return true and apply \<open>invalidate()\<close>, \<open>start()\<close> and \<open>stop()\<close> to slot \<open>i\<close>, and
  to no other slot. Two names that agree on 8 characters give the same result. When no
  populated slot matches, the three operations return false and leave the lane as it
  was. The host state passes through the lock and unlock callbacks in every case.
\<close>

theorem thread_name_ops:
  "(strncmp a b 8 = 0 \<longleftrightarrow> take 8 (c_str a) = take 8 (c_str b)) \<and>
   c_str (m_name (task_t_ctor name0 period callback)) = take 8 (c_str name0) \<and>
   (i < length (m_tasks_list th) \<and>
    (task_bool (m_tasks_list th ! i) \<and>
     take 8 (c_str (m_name (m_tasks_list th ! i))) = take 8 (c_str name)) \<and>
    (\<forall>j<i. \<not> (task_bool (m_tasks_list th ! j) \<and>
              take 8 (c_str (m_name (m_tasks_list th ! j))) = take 8 (c_str name))) \<longrightarrow>
      thread_pkill th name w =
        (True,
         th\<lparr>m_tasks_list := (m_tasks_list th)[i := task_invalidate (m_tasks_list th ! i)]\<rparr>,
         thread_unlock th (thread_lock th w)) \<and>
      thread_start tm th name w =
        (True,
         th\<lparr>m_tasks_list :=
              (m_tasks_list th)[i := fst (task_start tm (m_tasks_list th ! i) (thread_lock th w))]\<rparr>,
         thread_unlock th (snd (task_start tm (m_tasks_list th ! i) (thread_lock th w)))) \<and>
      thread_stop th name w =
        (True,
         th\<lparr>m_tasks_list := (m_tasks_list th)[i := task_stop (m_tasks_list th ! i)]\<rparr>,
         thread_unlock th (thread_lock th w))) \<and>
   (take 8 (c_str name) = take 8 (c_str name') \<longrightarrow>
      thread_pkill th name w = thread_pkill th name' w \<and>
      thread_start tm th name w = thread_start tm th name' w \<and>
      thread_stop th name w = thread_stop th name' w) \<and>
   ((\<forall>t\<in>set (m_tasks_list th).
        \<not> (task_bool t \<and> take 8 (c_str (m_name t)) = take 8 (c_str name))) \<longrightarrow>
      thread_pkill th name w = (False, th, thread_unlock th (thread_lock th w)) \<and>
      thread_start tm th name w = (False, th, thread_unlock th (thread_lock th w)) \<and>
      thread_stop th name w = (False, th, thread_unlock th (thread_lock th w)))"
proof (intro conjI impI)
  show "strncmp a b 8 = 0 \<longleftrightarrow> take 8 (c_str a) = take 8 (c_str b)"
    by (rule strncmp_zero_iff)
  show "c_str (m_name (task_t_ctor name0 period callback)) = take 8 (c_str name0)"
    by (rule c_str_task_t_ctor)
next
  assume h: "i < length (m_tasks_list th) \<and>
    (task_bool (m_tasks_list th ! i) \<and>
     take 8 (c_str (m_name (m_tasks_list th ! i))) = take 8 (c_str name)) \<and>
    (\<forall>j<i. \<not> (task_bool (m_tasks_list th ! j) \<and>
              take 8 (c_str (m_name (m_tasks_list th ! j))) = take 8 (c_str name)))"
  then have h1: "i < length (m_tasks_list th)"
    and h2: "task_bool (m_tasks_list th ! i) \<and>
       take 8 (c_str (m_name (m_tasks_list th ! i))) = take 8 (c_str name)"
    and h3: "\<forall>j<i. \<not> (task_bool (m_tasks_list th ! j) \<and>
              take 8 (c_str (m_name (m_tasks_list th ! j))) = take 8 (c_str name))"
    by blast+
  show "thread_pkill th name w =
        (True,
         th\<lparr>m_tasks_list := (m_tasks_list th)[i := task_invalidate (m_tasks_list th ! i)]\<rparr>,
         thread_unlock th (thread_lock th w))"
    by (simp add: thread_pkill_def thread_name_op_hit[OF h1 h2 h3])
  show "thread_start tm th name w =
        (True,
         th\<lparr>m_tasks_list :=
              (m_tasks_list th)[i := fst (task_start tm (m_tasks_list th ! i) (thread_lock th w))]\<rparr>,
         thread_unlock th (snd (task_start tm (m_tasks_list th ! i) (thread_lock th w))))"
    by (simp add: thread_start_def thread_name_op_hit[OF h1 h2 h3])
  show "thread_stop th name w =
        (True,
         th\<lparr>m_tasks_list := (m_tasks_list th)[i := task_stop (m_tasks_list th ! i)]\<rparr>,
         thread_unlock th (thread_lock th w))"
    by (simp add: thread_stop_def thread_name_op_hit[OF h1 h2 h3])
next
  assume p: "take 8 (c_str name) = take 8 (c_str name')"
  show "thread_pkill th name w = thread_pkill th name' w"
    unfolding thread_pkill_def by (rule thread_name_op_prefix[OF p])
  show "thread_start tm th name w = thread_start tm th name' w"
    unfolding thread_start_def by (rule thread_name_op_prefix[OF p])
  show "thread_stop th name w = thread_stop th name' w"
    unfolding thread_stop_def by (rule thread_name_op_prefix[OF p])
next
  assume m: "\<forall>t\<in>set (m_tasks_list th).
        \<not> (task_bool t \<and> take 8 (c_str (m_name t)) = take 8 (c_str name))"
  show "thread_pkill th name w = (False, th, thread_unlock th (thread_lock th w))"
    unfolding thread_pkill_def by (rule thread_name_op_miss[OF m])
  show "thread_start tm th name w = (False, th, thread_unlock th (thread_lock th w))"
    unfolding thread_start_def by (rule thread_name_op_miss[OF m])
  show "thread_stop th name w = (False, th, thread_unlock th (thread_lock th w))"
    unfolding thread_stop_def by (rule thread_name_op_miss[OF m])
qed

lemma aliased_lane_names:
  "c_str (m_name (m_tasks_list aliased_lane ! 0)) = ''abcdefgh''"
  "c_str (m_name (m_tasks_list aliased_lane ! 1)) = ''abcdefgh''"
  by (simp_all add: aliased_lane_def c_str_task_t_ctor) (simp_all add: c_str_def)

theorem thread_name_ops_witness:
  "thread_pkill aliased_lane ''abcdefghY'' 0 =
     (True,
      aliased_lane\<lparr>m_tasks_list :=
        [task_invalidate (task_t_ctor ''abcdefghX'' 10 keep_cb), task_t_ctor ''abcdefghY'' 10 keep_cb]\<rparr>,
      0) \<and>
   thread_stop aliased_lane ''abcdefghY'' 0 = thread_stop aliased_lane ''abcdefghX'' 0 \<and>
   thread_pkill aliased_lane ''abcdefg'' 0 = (False, aliased_lane, 0)"
proof -
  have len: "length (m_tasks_list aliased_lane) = 2" by (simp add: aliased_lane_def)
  have cY: "take 8 (c_str ''abcdefghY'') = ''abcdefgh''" by (simp add: c_str_def)
  have cX: "take 8 (c_str ''abcdefghX'') = ''abcdefgh''" by (simp add: c_str_def)
  have c7: "take 8 (c_str ''abcdefg'') = ''abcdefg''" by (simp add: c_str_def)
  have b0: "task_bool (m_tasks_list aliased_lane ! 0)"
    by (simp add: aliased_lane_def task_bool_def task_t_ctor_def Let_def)
  have hit: "0 < length (m_tasks_list aliased_lane) \<and>
    (task_bool (m_tasks_list aliased_lane ! 0) \<and>
     take 8 (c_str (m_name (m_tasks_list aliased_lane ! 0))) = take 8 (c_str ''abcdefghY'')) \<and>
    (\<forall>j<0. \<not> (task_bool (m_tasks_list aliased_lane ! j) \<and>
              take 8 (c_str (m_name (m_tasks_list aliased_lane ! j))) = take 8 (c_str ''abcdefghY'')))"
    using b0 by (simp add: len aliased_lane_names cY)
  have pre: "take 8 (c_str ''abcdefghY'') = take 8 (c_str ''abcdefghX'')"
    by (simp add: cX cY)
  have miss: "\<forall>t\<in>set (m_tasks_list aliased_lane).
        \<not> (task_bool t \<and> take 8 (c_str (m_name t)) = take 8 (c_str ''abcdefg''))"
    using aliased_lane_names by (simp add: c7 aliased_lane_def)
  have lk: "\<And>w. thread_unlock aliased_lane (thread_lock aliased_lane w) = w"
    by (simp add: thread_unlock_def thread_lock_def aliased_lane_def)
  have upd: "(m_tasks_list aliased_lane)[0 := task_invalidate (m_tasks_list aliased_lane ! 0)] =
      [task_invalidate (task_t_ctor ''abcdefghX'' 10 keep_cb), task_t_ctor ''abcdefghY'' 10 keep_cb]"
    by (simp add: aliased_lane_def)
  show ?thesis
    using thread_name_ops[of "''a''" "''b''" "''n''" 0 None 0 aliased_lane "''abcdefghY''" 0 steady_clock "''abcdefghX''"]
      thread_name_ops[of "''a''" "''b''" "''n''" 0 None 0 aliased_lane "''abcdefg''" 0 steady_clock "''abcdefg''"]
      hit pre miss
    by (simp only: lk upd) blast
qed

section \<open>The task callback and slot reuse\<close>


lemma stop_watch_stop_snd: "snd (stop_watch_stop tm sw w) = snd (now tm w)"
  by (simp add: stop_watch_stop_def elapsed_def split: prod.splits)

lemma task_run_callback:
  assumes "m_status t \<noteq> invalid" "m_status t \<noteq> stopped" "m_callback t = Some cb"
  shows "\<exists>t' w'. task_run tm t w = Inr (t', w') \<and>
           m_status t' =
             (if fst (cb (snd (now tm (snd (now tm (snd (now tm (snd (now tm w)))))))))
              then paused else invalid) \<and>
           m_callback t' = m_callback t \<and> m_name t' = m_name t \<and>
           m_period_tick t' = m_period_tick t"
  using assms
  by (auto simp: task_run_def Let_def stop_watch_start_def stop_watch_stop_def elapsed_def
           split: prod.splits)

lemma thread_add_loop_hit:
  assumes "i < length ts" "\<not> task_bool (ts ! i)" "\<forall>j<i. task_bool (ts ! j)"
  shows "thread_add_loop ts task = (True, ts[i := task_assign (ts ! i) task])"
  using assms
proof (induction ts arbitrary: i)
  case Nil
  then show ?case by simp
next
  case (Cons t ts)
  show ?case
  proof (cases i)
    case 0
    with Cons.prems(2) show ?thesis by simp
  next
    case (Suc k)
    from Cons.prems Suc have t: "task_bool t" by auto
    from Cons.prems Suc have k: "k < length ts" "\<not> task_bool (ts ! k)" "\<forall>j<k. task_bool (ts ! j)"
      by auto
    from Cons.IH[OF k] t Suc show ?thesis by simp
  qed
qed

lemma thread_add_loop_full:
  "\<forall>t\<in>set ts. task_bool t \<Longrightarrow> thread_add_loop ts task = (False, ts)"
  by (induction ts) auto

text \<open>
  Claim C6. When \<open>run()\<close> executes a task that is neither invalid nor stopped, the
  callback is called on the host state reached after four readings of the clock, and
  its result decides the status: \<open>true\<close> gives \<open>paused\<close>, \<open>false\<close> gives
  \<open>invalid\<close>, which makes the slot count as empty. When slot \<open>i\<close> is the first
  invalid slot of a lane, \<open>add(task)\<close> returns true and assigns the task to slot
  \<open>i\<close>: name, callback, period, last-run tick, status and both stopwatches are those
  of the new task.
\<close>

theorem task_run_result_and_slot_reuse:
  "(m_status t \<noteq> invalid \<and> m_status t \<noteq> stopped \<and> m_callback t = Some cb \<longrightarrow>
      \<not> isl (task_run tm t w) \<and>
      m_status (fst (projr (task_run tm t w))) =
        (if fst (cb (snd (now tm (snd (now tm (snd (now tm (snd (now tm w)))))))))
         then paused else invalid) \<and>
      task_bool (fst (projr (task_run tm t w))) =
        fst (cb (snd (now tm (snd (now tm (snd (now tm (snd (now tm w)))))))))) \<and>
   (i < length (m_tasks_list th) \<and> \<not> task_bool (m_tasks_list th ! i) \<and>
    (\<forall>j<i. task_bool (m_tasks_list th ! j)) \<longrightarrow>
      thread_add th task w' =
        (True,
         th\<lparr>m_tasks_list := (m_tasks_list th)[i := task_assign (m_tasks_list th ! i) task]\<rparr>,
         thread_unlock th (thread_lock th w')) \<and>
      m_name (task_assign (m_tasks_list th ! i) task) = m_name task \<and>
      m_callback (task_assign (m_tasks_list th ! i) task) = m_callback task \<and>
      m_period_tick (task_assign (m_tasks_list th ! i) task) = m_period_tick task \<and>
      m_last_run_tick (task_assign (m_tasks_list th ! i) task) = m_last_run_tick task \<and>
      m_status (task_assign (m_tasks_list th ! i) task) = m_status task \<and>
      m_run_time (task_assign (m_tasks_list th ! i) task) = m_run_time task \<and>
      m_exec_time (task_assign (m_tasks_list th ! i) task) = m_exec_time task)"
proof (intro conjI impI)
  assume h: "m_status t \<noteq> invalid \<and> m_status t \<noteq> stopped \<and> m_callback t = Some cb"
  then have h1: "m_status t \<noteq> invalid" and h2: "m_status t \<noteq> stopped"
    and h3: "m_callback t = Some cb" by simp_all
  from task_run_callback[OF h1 h2 h3, of tm w]
  obtain t' w1 where r: "task_run tm t w = Inr (t', w1)"
    and s: "m_status t' =
             (if fst (cb (snd (now tm (snd (now tm (snd (now tm (snd (now tm w)))))))))
              then paused else invalid)"
    by blast
  show "\<not> isl (task_run tm t w)" by (simp add: r)
  show "m_status (fst (projr (task_run tm t w))) =
        (if fst (cb (snd (now tm (snd (now tm (snd (now tm (snd (now tm w)))))))))
         then paused else invalid)"
    by (simp add: r s)
  show "task_bool (fst (projr (task_run tm t w))) =
        fst (cb (snd (now tm (snd (now tm (snd (now tm (snd (now tm w)))))))))"
    by (simp add: r s task_bool_def)
next
  assume h: "i < length (m_tasks_list th) \<and> \<not> task_bool (m_tasks_list th ! i) \<and>
    (\<forall>j<i. task_bool (m_tasks_list th ! j))"
  then have h1: "i < length (m_tasks_list th)" and h2: "\<not> task_bool (m_tasks_list th ! i)"
    and h3: "\<forall>j<i. task_bool (m_tasks_list th ! j)" by simp_all
  show "thread_add th task w' =
        (True,
         th\<lparr>m_tasks_list := (m_tasks_list th)[i := task_assign (m_tasks_list th ! i) task]\<rparr>,
         thread_unlock th (thread_lock th w'))"
    by (simp add: thread_add_def Let_def thread_add_loop_hit[OF h1 h2 h3])
qed (simp_all add: task_assign_def)

theorem task_run_result_and_slot_reuse_witness:
  "\<not> isl (task_run steady_clock (task_t_ctor ''once'' 0 drop_cb) 5) \<and>
   m_status (fst (projr (task_run steady_clock (task_t_ctor ''once'' 0 drop_cb) 5))) = invalid \<and>
   m_status (fst (projr (task_run steady_clock (task_t_ctor ''loop'' 0 keep_cb) 5))) = paused \<and>
   fst (thread_add
          (aliased_lane\<lparr>m_tasks_list :=
             [task_t_ctor ''loop'' 0 keep_cb,
              fst (projr (task_run steady_clock (task_t_ctor ''once'' 0 drop_cb) 5))]\<rparr>)
          (task_t_ctor ''next'' 7 keep_cb) 6) \<and>
   m_tasks_list (fst (snd (thread_add
          (aliased_lane\<lparr>m_tasks_list :=
             [task_t_ctor ''loop'' 0 keep_cb,
              fst (projr (task_run steady_clock (task_t_ctor ''once'' 0 drop_cb) 5))]\<rparr>)
          (task_t_ctor ''next'' 7 keep_cb) 6))) =
     [task_t_ctor ''loop'' 0 keep_cb,
      task_assign (fst (projr (task_run steady_clock (task_t_ctor ''once'' 0 drop_cb) 5)))
        (task_t_ctor ''next'' 7 keep_cb)]"
proof -
  let ?once = "task_t_ctor ''once'' 0 drop_cb :: (64 word) task_t"
  let ?loop = "task_t_ctor ''loop'' 0 keep_cb :: (64 word) task_t"
  let ?dead = "fst (projr (task_run steady_clock ?once 5))"
  let ?th = "aliased_lane\<lparr>m_tasks_list := [?loop, ?dead]\<rparr>"
  have o: "m_status ?once \<noteq> invalid \<and> m_status ?once \<noteq> stopped \<and>
           m_callback ?once = Some (\<lambda>w. (False, w))"
    by (simp add: task_t_ctor_def Let_def drop_cb_def)
  have l: "m_status ?loop \<noteq> invalid \<and> m_status ?loop \<noteq> stopped \<and>
           m_callback ?loop = Some (\<lambda>w. (True, w))"
    by (simp add: task_t_ctor_def Let_def keep_cb_def)
  note T1 = task_run_result_and_slot_reuse[of ?once "\<lambda>w. (False, w)" steady_clock 5 0 aliased_lane]
  note T2 = task_run_result_and_slot_reuse[of ?loop "\<lambda>w. (True, w)" steady_clock 5 0 aliased_lane]
  have d1: "\<not> isl (task_run steady_clock ?once 5)" and d2: "m_status ?dead = invalid"
    and d3: "\<not> task_bool ?dead"
    using T1 o by simp_all
  have k2: "m_status (fst (projr (task_run steady_clock ?loop 5))) = paused"
    using T2 l by simp
  have slot: "1 < length (m_tasks_list ?th) \<and> \<not> task_bool (m_tasks_list ?th ! 1) \<and>
    (\<forall>j<1. task_bool (m_tasks_list ?th ! j))"
    using d3 by (simp add: task_bool_def task_t_ctor_def Let_def)
  note T3 = task_run_result_and_slot_reuse[of ?once "\<lambda>w. (False, w)" steady_clock 5 1 ?th
      "task_t_ctor ''next'' 7 keep_cb" 6]
  have a: "thread_add ?th (task_t_ctor ''next'' 7 keep_cb) 6 =
        (True,
         ?th\<lparr>m_tasks_list := (m_tasks_list ?th)[1 := task_assign (m_tasks_list ?th ! 1) (task_t_ctor ''next'' 7 keep_cb)]\<rparr>,
         thread_unlock ?th (thread_lock ?th 6))"
    using T3 slot by blast
  show ?thesis
    using d1 d2 k2 by (simp add: a)
qed

section \<open>The scheduler registry\<close>

lemma task_run_not_NullDeref: "task_run tm t w \<noteq> Inl NullDeref"
  by (simp add: task_run_def Let_def split: prod.splits option.splits)

lemma thread_run_obs_not_NullDeref: "thread_run_obs tm th w \<noteq> Some (Inl NullDeref)"
proof
  assume a: "thread_run_obs tm th w = Some (Inl NullDeref)"
  then show False
    unfolding thread_run_obs_def Let_def
    by (auto split: prod.splits if_splits option.splits sum.splits
             simp: task_run_not_NullDeref)
qed

lemma thread_run_not_NullDeref: "thread_run tm th w \<noteq> Some (Inl NullDeref)"
proof
  assume "thread_run tm th w = Some (Inl NullDeref)"
  then obtain r where r: "thread_run_obs tm th w = Some r" "map_sum id snd r = Inl NullDeref"
    by (auto simp: thread_run_def)
  then have "r = Inl NullDeref" by (cases r) auto
  with r(1) show False by (simp add: thread_run_obs_not_NullDeref)
qed

lemma scheduler_name_loop_skips_null:
  "scheduler_name_loop f ps name lanes w =
   scheduler_name_loop f (filter (\<lambda>p. p \<noteq> None) ps) name lanes w"
  by (induction ps arbitrary: lanes w) (auto split: option.splits prod.splits)

lemma scheduler_reset_loop_skips_null:
  "scheduler_reset_loop ps lanes w = scheduler_reset_loop (filter (\<lambda>p. p \<noteq> None) ps) lanes w"
  by (induction ps arbitrary: lanes w) (auto split: option.splits prod.splits)


text \<open>
  Claim C9. A freshly constructed scheduler has eight null registry slots, and
  registering a lane fills the first of them. \<open>pkill\<close>, \<open>start\<close>, \<open>stop\<close> and
  \<open>reset_stats\<close> do what they would do on the registry without its null slots. For a
  lane index inside the registry, \<open>run(index)\<close> and \<open>add(task, index)\<close> call through
  the pointer of that slot: on a null slot both are a null dereference, on a
  registered slot neither is, and they forward to the lane. For an index outside the
  registry both return without touching anything.
\<close>

theorem scheduler_null_slots:
  "m_threads (fst (scheduler_t_ctor on_now_cb)) = replicate 8 None \<and>
   scheduler_add_thread (fst (scheduler_t_ctor on_now_cb)) (Some a0) =
     (True, \<lparr>m_threads = Some a0 # replicate 7 None\<rparr>) \<and>
   scheduler_pkill sch lanes name w =
     scheduler_name_loop thread_pkill (filter (\<lambda>p. p \<noteq> None) (m_threads sch)) name lanes w \<and>
   scheduler_start tm sch lanes name w =
     scheduler_name_loop (thread_start tm) (filter (\<lambda>p. p \<noteq> None) (m_threads sch)) name lanes w \<and>
   scheduler_stop sch lanes name w =
     scheduler_name_loop thread_stop (filter (\<lambda>p. p \<noteq> None) (m_threads sch)) name lanes w \<and>
   scheduler_reset_stats sch lanes w =
     scheduler_reset_loop (filter (\<lambda>p. p \<noteq> None) (m_threads sch)) lanes w \<and>
   (unat idx < length (m_threads sch) \<and> m_threads sch ! unat idx = None \<longrightarrow>
      scheduler_run tm sch lanes idx w = Some (Inl NullDeref) \<and>
      scheduler_add_task sch lanes task idx w = Inl NullDeref) \<and>
   (unat idx < length (m_threads sch) \<and> m_threads sch ! unat idx = Some a \<longrightarrow>
      scheduler_run tm sch lanes idx w \<noteq> Some (Inl NullDeref) \<and>
      scheduler_run tm sch lanes idx w =
        map_option (map_sum id (\<lambda>(th, w'). (lanes(a := th), w'))) (thread_run tm (lanes a) w) \<and>
      scheduler_add_task sch lanes task idx w =
        Inr (fst (thread_add (lanes a) task w),
             lanes(a := fst (snd (thread_add (lanes a) task w))),
             snd (snd (thread_add (lanes a) task w)))) \<and>
   (length (m_threads sch) \<le> unat idx \<longrightarrow>
      scheduler_run tm sch lanes idx w = Some (Inr (lanes, w)) \<and>
      scheduler_add_task sch lanes task idx w = Inr (False, lanes, w))"
proof (intro conjI impI)
  show "m_threads (fst (scheduler_t_ctor on_now_cb)) = replicate 8 None"
    by (simp add: scheduler_t_ctor_def)
  show "scheduler_add_thread (fst (scheduler_t_ctor on_now_cb)) (Some a0) =
     (True, \<lparr>m_threads = Some a0 # replicate 7 None\<rparr>)"
    by (simp add: scheduler_t_ctor_def scheduler_add_thread_def eval_nat_numeral)
  show "scheduler_pkill sch lanes name w =
     scheduler_name_loop thread_pkill (filter (\<lambda>p. p \<noteq> None) (m_threads sch)) name lanes w"
    unfolding scheduler_pkill_def by (rule scheduler_name_loop_skips_null)
  show "scheduler_start tm sch lanes name w =
     scheduler_name_loop (thread_start tm) (filter (\<lambda>p. p \<noteq> None) (m_threads sch)) name lanes w"
    unfolding scheduler_start_def by (rule scheduler_name_loop_skips_null)
  show "scheduler_stop sch lanes name w =
     scheduler_name_loop thread_stop (filter (\<lambda>p. p \<noteq> None) (m_threads sch)) name lanes w"
    unfolding scheduler_stop_def by (rule scheduler_name_loop_skips_null)
  show "scheduler_reset_stats sch lanes w =
     scheduler_reset_loop (filter (\<lambda>p. p \<noteq> None) (m_threads sch)) lanes w"
    unfolding scheduler_reset_stats_def by (rule scheduler_reset_loop_skips_null)
next
  assume h: "unat idx < length (m_threads sch) \<and> m_threads sch ! unat idx = None"
  show "scheduler_run tm sch lanes idx w = Some (Inl NullDeref)"
    using h by (simp add: scheduler_run_def)
  show "scheduler_add_task sch lanes task idx w = Inl NullDeref"
    using h by (simp add: scheduler_add_task_def)
next
  assume h: "unat idx < length (m_threads sch) \<and> m_threads sch ! unat idx = Some a"
  show eq: "scheduler_run tm sch lanes idx w =
        map_option (map_sum id (\<lambda>(th, w'). (lanes(a := th), w'))) (thread_run tm (lanes a) w)"
    using h by (simp add: scheduler_run_def split: option.splits sum.splits)
  show "scheduler_run tm sch lanes idx w \<noteq> Some (Inl NullDeref)"
  proof
    assume "scheduler_run tm sch lanes idx w = Some (Inl NullDeref)"
    with eq have "map_option (map_sum id (\<lambda>(th, w'). (lanes(a := th), w')))
        (thread_run tm (lanes a) w) = Some (Inl NullDeref)" by simp
    then obtain r where r: "thread_run tm (lanes a) w = Some r"
      "map_sum id (\<lambda>(th, w'). (lanes(a := th), w')) r = Inl NullDeref"
      by (cases "thread_run tm (lanes a) w") auto
    then have "r = Inl NullDeref" by (cases r) auto
    with r(1) show False by (simp add: thread_run_not_NullDeref)
  qed
  show "scheduler_add_task sch lanes task idx w =
        Inr (fst (thread_add (lanes a) task w),
             lanes(a := fst (snd (thread_add (lanes a) task w))),
             snd (snd (thread_add (lanes a) task w)))"
    using h by (simp add: scheduler_add_task_def split: prod.splits)
next
  assume h: "length (m_threads sch) \<le> unat idx"
  show "scheduler_run tm sch lanes idx w = Some (Inr (lanes, w))"
    using h by (simp add: scheduler_run_def)
  show "scheduler_add_task sch lanes task idx w = Inr (False, lanes, w)"
    using h by (simp add: scheduler_add_task_def)
qed

theorem scheduler_null_slots_witness:
  "scheduler_run steady_clock (fst (scheduler_t_ctor (None :: (64 word \<Rightarrow> time_t \<times> 64 word) option))) (\<lambda>a. aliased_lane) 3 0 =
     Some (Inl NullDeref) \<and>
   scheduler_add_task (fst (scheduler_t_ctor (None :: (64 word \<Rightarrow> time_t \<times> 64 word) option))) (\<lambda>a. aliased_lane)
     (task_t_ctor ''t1'' 10 keep_cb) 3 0 = Inl NullDeref \<and>
   scheduler_run steady_clock \<lparr>m_threads = Some 0 # replicate 7 None\<rparr> (\<lambda>a. aliased_lane) 0 0
     \<noteq> Some (Inl NullDeref) \<and>
   scheduler_run steady_clock (fst (scheduler_t_ctor (None :: (64 word \<Rightarrow> time_t \<times> 64 word) option))) (\<lambda>a. aliased_lane) 8 0 =
     Some (Inr (\<lambda>a. aliased_lane, 0))"
proof -
  let ?s0 = "fst (scheduler_t_ctor (None :: (64 word \<Rightarrow> time_t \<times> 64 word) option))"
  let ?s1 = "\<lparr>m_threads = Some 0 # replicate 7 None\<rparr>"
  have n: "unat (3 :: 8 word) < length (m_threads ?s0) \<and> m_threads ?s0 ! unat (3 :: 8 word) = None"
    by (simp add: scheduler_t_ctor_def)
  have r: "unat (0 :: 8 word) < length (m_threads ?s1) \<and> m_threads ?s1 ! unat (0 :: 8 word) = Some 0"
    by simp
  have o: "length (m_threads ?s0) \<le> unat (8 :: 8 word)"
    by (simp add: scheduler_t_ctor_def)
  note T1 = scheduler_null_slots[of None 0 ?s0 "\<lambda>a. aliased_lane" "''x''" 0 steady_clock 3
            "task_t_ctor ''t1'' 10 keep_cb" 0]
  note T2 = scheduler_null_slots[of None 0 ?s1 "\<lambda>a. aliased_lane" "''x''" 0 steady_clock 0
            "task_t_ctor ''t1'' 10 keep_cb" 0]
  note T3 = scheduler_null_slots[of None 0 ?s0 "\<lambda>a. aliased_lane" "''x''" 0 steady_clock 8
            "task_t_ctor ''t1'' 10 keep_cb" 0]
  have i1: "unat (3 :: 8 word) < length (m_threads ?s0) \<and> m_threads ?s0 ! unat (3 :: 8 word) = None \<longrightarrow>
      scheduler_run steady_clock ?s0 (\<lambda>a. aliased_lane) 3 0 = Some (Inl NullDeref) \<and>
      scheduler_add_task ?s0 (\<lambda>a. aliased_lane) (task_t_ctor ''t1'' 10 keep_cb) 3 0 = Inl NullDeref"
    using T1 by (elim conjE) assumption
  have i2: "unat (0 :: 8 word) < length (m_threads ?s1) \<and> m_threads ?s1 ! unat (0 :: 8 word) = Some 0 \<longrightarrow>
      scheduler_run steady_clock ?s1 (\<lambda>a. aliased_lane) 0 0 \<noteq> Some (Inl NullDeref) \<and>
      scheduler_run steady_clock ?s1 (\<lambda>a. aliased_lane) 0 0 =
        map_option (map_sum id (\<lambda>(th, w'). ((\<lambda>a. aliased_lane)(0 := th), w')))
          (thread_run steady_clock ((\<lambda>a. aliased_lane) 0) 0) \<and>
      scheduler_add_task ?s1 (\<lambda>a. aliased_lane) (task_t_ctor ''t1'' 10 keep_cb) 0 0 =
        Inr (fst (thread_add ((\<lambda>a. aliased_lane) 0) (task_t_ctor ''t1'' 10 keep_cb) 0),
             (\<lambda>a. aliased_lane)(0 := fst (snd (thread_add ((\<lambda>a. aliased_lane) 0) (task_t_ctor ''t1'' 10 keep_cb) 0))),
             snd (snd (thread_add ((\<lambda>a. aliased_lane) 0) (task_t_ctor ''t1'' 10 keep_cb) 0)))"
    using T2 by (elim conjE) assumption
  have i3: "length (m_threads ?s0) \<le> unat (8 :: 8 word) \<longrightarrow>
      scheduler_run steady_clock ?s0 (\<lambda>a. aliased_lane) 8 0 = Some (Inr (\<lambda>a. aliased_lane, 0)) \<and>
      scheduler_add_task ?s0 (\<lambda>a. aliased_lane) (task_t_ctor ''t1'' 10 keep_cb) 8 0 =
        Inr (False, \<lambda>a. aliased_lane, 0)"
    using T3 by (elim conjE) assumption
  from i1[rule_format, OF n] i2[rule_format, OF r] i3[rule_format, OF o]
  show ?thesis by blast
qed

section \<open>The lane: round-robin dispatch\<close>







lemma task_is_ready_true_status:
  "fst (task_is_ready tm t w) \<Longrightarrow> m_status t \<noteq> invalid \<and> m_status t \<noteq> stopped"
  by (auto simp: task_is_ready_def split: if_splits)






















end
